theory Spec2Isabelle
  imports Main "HOL-Library.AList"
begin

section \<open>YAML documents and the Python operations the script applies to them\<close>

text \<open>
  The value \<^verbatim>\<open>yaml.safe_load\<close> returns, restricted to the JSON-like core of YAML:
  null, booleans, integers, strings, sequences and mappings with string keys. A Python
  \<^verbatim>\<open>dict\<close> keeps insertion order, so a mapping is an association list:
  \<^verbatim>\<open>d[k] = v\<close> is \<open>AList.update\<close> (replace in place, or append at the end),
  \<^verbatim>\<open>d.pop(k, None)\<close> is \<open>AList.delete\<close>, and \<^verbatim>\<open>d[k]\<close> is \<open>map_of\<close>.
  Documents are trees: anchors and aliases, which would make two places of a document
  share one object, are outside the model.
\<close>

datatype yaml =
    YNull
  | YBool bool
  | YInt int
  | YStr string
  | YSeq "yaml list"
  | YMap "(string \<times> yaml) list"

datatype error =
    KeyError string
  | TypeError
  | AttributeError
  | YAMLError
  | GithubException nat

text \<open>Sequencing of computations that may raise: the first exception ends the computation.\<close>

definition ebind :: "error + 'a \<Rightarrow> ('a \<Rightarrow> error + 'b) \<Rightarrow> error + 'b" where
  "ebind m f = (case m of Inl e \<Rightarrow> Inl e | Inr x \<Rightarrow> f x)"

text \<open>\<^verbatim>\<open>obj[key]\<close> for a string key: only a dict can be subscripted with a string.\<close>

fun getitem :: "yaml \<Rightarrow> string \<Rightarrow> error + yaml" where
  "getitem (YMap al) k = (case map_of al k of None \<Rightarrow> Inl (KeyError k) | Some v \<Rightarrow> Inr v)"
| "getitem _ k = Inl TypeError"

text \<open>\<^verbatim>\<open>obj[key] = v\<close> for a string key; the result is the object after the assignment.\<close>

fun setitem :: "yaml \<Rightarrow> string \<Rightarrow> yaml \<Rightarrow> error + yaml" where
  "setitem (YMap al) k v = Inr (YMap (AList.update k v al))"
| "setitem _ k v = Inl TypeError"

text \<open>
  \<^verbatim>\<open>obj.pop(key, None)\<close>; the result is the object after the call. A list has a
  \<^verbatim>\<open>pop\<close> that takes at most one argument (TypeError); the other values have no such
  attribute.
\<close>

fun pop :: "yaml \<Rightarrow> string \<Rightarrow> error + yaml" where
  "pop (YMap al) k = Inr (YMap (AList.delete k al))"
| "pop (YSeq xs) k = Inl TypeError"
| "pop _ k = Inl AttributeError"

text \<open>
  The items a \<^verbatim>\<open>for\<close> loop visits: the elements of a list, the keys of a dict, the
  characters of a string; the other values are not iterable.
\<close>

fun iter :: "yaml \<Rightarrow> error + yaml list" where
  "iter (YSeq xs) = Inr xs"
| "iter (YMap al) = Inr (map (\<lambda>kv. YStr (fst kv)) al)"
| "iter (YStr s) = Inr (map (\<lambda>c. YStr [c]) s)"
| "iter _ = Inl TypeError"

text \<open>
  The script assigns into nested dicts in place. In the model the enclosing dict is
  rebuilt with the changed child under the key it was read from, which keeps the key's
  position, as the mutation in place does.
\<close>

fun store :: "yaml \<Rightarrow> string \<Rightarrow> yaml \<Rightarrow> yaml" where
  "store (YMap al) k v = YMap (AList.update k v al)"
| "store y k v = y"

text \<open>An f-string field: \<^verbatim>\<open>None\<close> (a command-line flag that was not given) prints as \<^verbatim>\<open>None\<close>.\<close>

definition fstr :: "string option \<Rightarrow> string" where
  "fstr x = (case x of None \<Rightarrow> ''None'' | Some s \<Rightarrow> s)"

section \<open>The edits of the manifest\<close>

definition ignore_tags_key :: "string \<Rightarrow> string" where
  "ignore_tags_key service = ''argocd-image-updater.argoproj.io/'' @ service @ ''.ignore-tags''"

text \<open>\<^verbatim>\<open>pause\<close>, lines 20 to 22: \<^verbatim>\<open>app['metadata']['annotations'][key] = '*'\<close>.\<close>

definition pause_edit :: "string \<Rightarrow> yaml \<Rightarrow> error + yaml" where
  "pause_edit service app =
     ebind (getitem app ''metadata'') (\<lambda>metadata.
     ebind (getitem metadata ''annotations'') (\<lambda>annotations.
     ebind (setitem annotations (ignore_tags_key service) (YStr ''*'')) (\<lambda>annotations'.
       Inr (store app ''metadata'' (store metadata ''annotations'' annotations')))))"

text \<open>\<^verbatim>\<open>resume\<close>, lines 40 to 42: \<^verbatim>\<open>app['metadata']['annotations'].pop(key, None)\<close>.\<close>

definition resume_edit :: "string \<Rightarrow> yaml \<Rightarrow> error + yaml" where
  "resume_edit service app =
     ebind (getitem app ''metadata'') (\<lambda>metadata.
     ebind (getitem metadata ''annotations'') (\<lambda>annotations.
     ebind (pop annotations (ignore_tags_key service)) (\<lambda>annotations'.
       Inr (store app ''metadata'' (store metadata ''annotations'' annotations')))))"

text \<open>
  \<^verbatim>\<open>get_versions\<close>, lines 66 to 68: the loop over the Helm parameters of one
  source-tracking file, for the service called \<open>service_name\<close>, threading the
  \<^verbatim>\<open>versions\<close> dict.
\<close>

fun collect_tags :: "string \<Rightarrow> yaml list \<Rightarrow> (string \<times> yaml) list \<Rightarrow> error + (string \<times> yaml) list" where
  "collect_tags service_name [] versions = Inr versions"
| "collect_tags service_name (param # rest) versions =
     ebind (getitem param ''name'') (\<lambda>n.
       if n = YStr ''image.tag''
       then ebind (getitem param ''value'') (\<lambda>v.
              collect_tags service_name rest (AList.update service_name v versions))
       else collect_tags service_name rest versions)"

definition read_versions :: "string \<Rightarrow> yaml \<Rightarrow> (string \<times> yaml) list \<Rightarrow> error + (string \<times> yaml) list" where
  "read_versions service_name params versions =
     ebind (getitem params ''helm'') (\<lambda>helm.
     ebind (getitem helm ''parameters'') (\<lambda>parameters.
     ebind (iter parameters) (\<lambda>ps.
       collect_tags service_name ps versions)))"

text \<open>
  \<^verbatim>\<open>update_versions\<close>, lines 102 to 106: the loop that keeps the parameters not named
  \<^verbatim>\<open>image.tag\<close>, with \<^verbatim>\<open>new_params\<close> as accumulator.
\<close>

fun keep_params :: "yaml list \<Rightarrow> yaml list \<Rightarrow> error + yaml list" where
  "keep_params [] new_params = Inr new_params"
| "keep_params (param # rest) new_params =
     ebind (getitem param ''name'') (\<lambda>n.
       if n \<noteq> YStr ''image.tag''
       then keep_params rest (new_params @ [param])
       else keep_params rest new_params)"

text \<open>\<^verbatim>\<open>versions[service.name]\<close>.\<close>

definition lookup_version :: "(string \<times> yaml) list \<Rightarrow> string \<Rightarrow> error + yaml" where
  "lookup_version versions service_name =
     (case map_of versions service_name of None \<Rightarrow> Inl (KeyError service_name) | Some v \<Rightarrow> Inr v)"

text \<open>\<^verbatim>\<open>update_versions\<close>, lines 102 to 111, on the loaded manifest of one service.\<close>

definition update_edit :: "(string \<times> yaml) list \<Rightarrow> string \<Rightarrow> yaml \<Rightarrow> error + yaml" where
  "update_edit versions service_name app =
     ebind (getitem app ''spec'') (\<lambda>spec.
     ebind (getitem spec ''source'') (\<lambda>source.
     ebind (getitem source ''helm'') (\<lambda>helm.
     ebind (getitem helm ''parameters'') (\<lambda>parameters.
     ebind (iter parameters) (\<lambda>ps.
     ebind (keep_params ps []) (\<lambda>new_params.
     ebind (lookup_version versions service_name) (\<lambda>v.
     ebind (setitem helm ''parameters''
              (YSeq (new_params @ [YMap [(''name'', YStr ''image.tag''), (''value'', v)]]))) (\<lambda>helm'.
       Inr (store app ''spec'' (store spec ''source'' (store source ''helm'' helm')))))))))))"

section \<open>The remote repository\<close>

text \<open>
  The Git hosting provider behind the PyGithub client is not part of the script; its state
  and its endpoints are modelled from the spec. A ref names a snapshot of the tree, a map
  from paths to blobs and directory listings; a commit is identified with the snapshot it
  records and a blob with its text, as content addressing does. \<open>calls\<close> records every
  call of a mutating endpoint with its arguments, whether or not the provider accepts it.
\<close>

record entry =
  name :: string
  path :: string

record content_file = entry +
  sha :: string
  decoded_content :: string

datatype node = Blob string | Tree "entry list"

datatype contents = File content_file | Dir "entry list"

type_synonym snapshot = "string \<rightharpoonup> node"

datatype call =
    CreateGitRef string snapshot
  | UpdateFile string string string string string
  | CreatePull string string string

record repo =
  default_branch :: string
  refs :: "string \<rightharpoonup> snapshot"
  pulls :: "(string \<times> string \<times> string) list"
  calls :: "call list"

text \<open>The external YAML library: \<^verbatim>\<open>yaml.safe_load\<close> (after decoding) and \<^verbatim>\<open>yaml.dump\<close>.\<close>

record yaml_module =
  safe_load :: "string \<Rightarrow> error + yaml"
  dump :: "yaml \<Rightarrow> string"

text \<open>Computations on the remote: they return a value or raise, and leave a new remote.\<close>

type_synonym 'a io = "repo \<Rightarrow> (error + 'a) \<times> repo"

definition io_bind :: "'a io \<Rightarrow> ('a \<Rightarrow> 'b io) \<Rightarrow> 'b io" where
  "io_bind m f r = (case m r of (Inl e, r') \<Rightarrow> (Inl e, r') | (Inr x, r') \<Rightarrow> f x r')"

definition io_pure :: "error + 'a \<Rightarrow> 'a io" where
  "io_pure x r = (x, r)"

definition basename :: "string \<Rightarrow> string" where
  "basename p = rev (takeWhile (\<lambda>c. c \<noteq> CHR ''/'') (rev p))"

definition heads :: "string \<Rightarrow> string" where
  "heads branch = ''refs/heads/'' @ branch"

text \<open>
  Modelled from the spec: \<^verbatim>\<open>repo.get_branch(branch).commit.sha\<close> of the client library,
  the head commit of the branch; status 404 when there is no such branch.
\<close>

definition get_branch :: "string \<Rightarrow> repo \<Rightarrow> error + snapshot" where
  "get_branch branch r =
     (case refs r (heads branch) of None \<Rightarrow> Inl (GithubException 404) | Some s \<Rightarrow> Inr s)"

text \<open>
  Modelled from the spec: \<^verbatim>\<open>repo.get_contents(path, ref=branch)\<close> of the client library,
  a file or the listing of a directory; status 404 when the branch or the path is missing.
\<close>

definition get_contents :: "string \<Rightarrow> string \<Rightarrow> repo \<Rightarrow> error + contents" where
  "get_contents p branch r =
     (case refs r (heads branch) of
        None \<Rightarrow> Inl (GithubException 404)
      | Some s \<Rightarrow>
          (case s p of
             None \<Rightarrow> Inl (GithubException 404)
           | Some (Blob t) \<Rightarrow>
               Inr (File \<lparr>name = basename p, path = p, sha = t, decoded_content = t\<rparr>)
           | Some (Tree es) \<Rightarrow> Inr (Dir es)))"

text \<open>
  Modelled from the spec: \<^verbatim>\<open>repo.create_git_ref(ref, sha)\<close> of the client library; it
  fails (status 422) when the ref exists already.
\<close>

definition create_git_ref :: "string \<Rightarrow> snapshot \<Rightarrow> unit io" where
  "create_git_ref ref commit r =
     (let r' = r\<lparr>calls := calls r @ [CreateGitRef ref commit]\<rparr>
      in case refs r ref of
           Some _ \<Rightarrow> (Inl (GithubException 422), r')
         | None \<Rightarrow> (Inr (), r'\<lparr>refs := (refs r)(ref \<mapsto> commit)\<rparr>))"

text \<open>
  Modelled from the spec: \<^verbatim>\<open>repo.update_file(path, message, content, sha, branch)\<close> of the
  client library; it commits the new text of the file to the branch. Status 404 when the
  branch or the file is missing there, 409 when the blob there is not the one named by
  \<open>sha\<close> (the commit precondition of the spec).
\<close>

definition update_file :: "string \<Rightarrow> string \<Rightarrow> string \<Rightarrow> string \<Rightarrow> string \<Rightarrow> unit io" where
  "update_file p message content blob branch r =
     (let r' = r\<lparr>calls := calls r @ [UpdateFile p message content blob branch]\<rparr>
      in case refs r (heads branch) of
           None \<Rightarrow> (Inl (GithubException 404), r')
         | Some s \<Rightarrow>
             (case s p of
                Some (Blob t) \<Rightarrow>
                  if t = blob
                  then (Inr (), r'\<lparr>refs := (refs r)(heads branch \<mapsto> s(p \<mapsto> Blob content))\<rparr>)
                  else (Inl (GithubException 409), r')
              | _ \<Rightarrow> (Inl (GithubException 404), r')))"

text \<open>
  Modelled from the spec: \<^verbatim>\<open>repo.create_pull(base, head, title)\<close> of the client library;
  status 422 when one of the two branches is missing.
\<close>

definition create_pull :: "string \<Rightarrow> string \<Rightarrow> string \<Rightarrow> unit io" where
  "create_pull base head title r =
     (let r' = r\<lparr>calls := calls r @ [CreatePull base head title]\<rparr>
      in case (refs r (heads base), refs r (heads head)) of
           (Some _, Some _) \<Rightarrow> (Inr (), r'\<lparr>pulls := pulls r @ [(base, head, title)]\<rparr>)
         | _ \<Rightarrow> (Inl (GithubException 422), r'))"

section \<open>The script\<close>

text \<open>
  The functions of \<^verbatim>\<open>gitops-script.py\<close>. The \<^verbatim>\<open>repo\<close> argument of the source is the
  remote the computation runs on; the lines printed to standard output are not modelled.
\<close>

text \<open>A \<^verbatim>\<open>for\<close> loop over what \<^verbatim>\<open>get_contents\<close> returned: a single file is not iterable.\<close>

definition iter_contents :: "contents \<Rightarrow> error + entry list" where
  "iter_contents c = (case c of Dir es \<Rightarrow> Inr es | File _ \<Rightarrow> Inl TypeError)"

text \<open>\<^verbatim>\<open>contents.decoded_content\<close> and its siblings: a directory listing has no such attribute.\<close>

definition the_file :: "contents \<Rightarrow> error + content_file" where
  "the_file c = (case c of File f \<Rightarrow> Inr f | Dir _ \<Rightarrow> Inl AttributeError)"

fun for_each :: "('a \<Rightarrow> unit io) \<Rightarrow> 'a list \<Rightarrow> unit io" where
  "for_each body [] r = (Inr (), r)"
| "for_each body (x # xs) r =
     (case body x r of
        (Inl e, r') \<Rightarrow> (Inl e, r')
      | (Inr _, r') \<Rightarrow> for_each body xs r')"

text \<open>The two file paths the script formats (lines 14 and 34, and line 60).\<close>

definition application_yaml :: "string option \<Rightarrow> string \<Rightarrow> string" where
  "application_yaml env service = ''environments/'' @ fstr env @ ''/'' @ service @ ''/application.yaml''"

definition argocd_source :: "entry \<Rightarrow> string option \<Rightarrow> string" where
  "argocd_source service env =
     path service @ ''/.argocd-source-'' @ name service @ ''-'' @ fstr env @ ''.yaml''"

definition pause :: "yaml_module \<Rightarrow> string option \<Rightarrow> string \<Rightarrow> string \<Rightarrow> unit io" where
  "pause Y env service branch r =
     (let file_path = application_yaml env service
      in io_bind (io_pure (ebind (get_contents file_path (default_branch r) r) the_file)) (\<lambda>contents.
         io_bind (io_pure (ebind (safe_load Y (decoded_content contents)) (pause_edit service))) (\<lambda>app.
           update_file (path contents) (''Pause '' @ service @ '' in '' @ fstr env @ ''.'')
             (dump Y app) (sha contents) branch)) r)"

definition resume :: "yaml_module \<Rightarrow> string option \<Rightarrow> string \<Rightarrow> string \<Rightarrow> unit io" where
  "resume Y env service branch r =
     (let file_path = application_yaml env service
      in io_bind (io_pure (ebind (get_contents file_path (default_branch r) r) the_file)) (\<lambda>contents.
         io_bind (io_pure (ebind (safe_load Y (decoded_content contents)) (resume_edit service))) (\<lambda>app.
           update_file (path contents) (''Resume '' @ service @ '' in '' @ fstr env @ ''.'')
             (dump Y app) (sha contents) branch)) r)"

text \<open>The loop of \<^verbatim>\<open>get_versions\<close> over the service directories; it only reads the remote.\<close>

fun get_versions_loop ::
  "yaml_module \<Rightarrow> string option \<Rightarrow> repo \<Rightarrow> entry list \<Rightarrow> (string \<times> yaml) list \<Rightarrow> error + (string \<times> yaml) list" where
  "get_versions_loop Y env r [] versions = Inr versions"
| "get_versions_loop Y env r (service # rest) versions =
     (let file_path = argocd_source service env
      in ebind (ebind (get_contents file_path (default_branch r) r) the_file) (\<lambda>contents.
         ebind (safe_load Y (decoded_content contents)) (\<lambda>params.
         ebind (read_versions (name service) params versions) (\<lambda>versions'.
           get_versions_loop Y env r rest versions'))))"

definition get_versions :: "yaml_module \<Rightarrow> string \<Rightarrow> string option \<Rightarrow> repo \<Rightarrow> error + (string \<times> yaml) list" where
  "get_versions Y charts_dir env r =
     ebind (ebind (get_contents charts_dir (default_branch r) r) iter_contents) (\<lambda>services.
       get_versions_loop Y env r services [])"

text \<open>The body of the loop of \<^verbatim>\<open>update_versions\<close>, for one service.\<close>

definition update_service ::
  "yaml_module \<Rightarrow> string option \<Rightarrow> (string \<times> yaml) list \<Rightarrow> string \<Rightarrow> entry \<Rightarrow> unit io" where
  "update_service Y env versions branch service r =
     (let file_path = path service @ ''/application.yaml''
      in io_bind (io_pure (ebind (get_contents file_path (default_branch r) r) the_file)) (\<lambda>contents.
         io_bind (io_pure (ebind (safe_load Y (decoded_content contents))
                            (update_edit versions (name service)))) (\<lambda>app.
           update_file (path contents) (''Updated '' @ name service @ '' in '' @ fstr env @ ''.'')
             (dump Y app) (sha contents) branch)) r)"

definition update_versions ::
  "yaml_module \<Rightarrow> string option \<Rightarrow> (string \<times> yaml) list \<Rightarrow> string \<Rightarrow> unit io" where
  "update_versions Y env versions branch r =
     (let target_dir = ''environments/'' @ fstr env
      in io_bind (io_pure (ebind (get_contents target_dir (default_branch r) r) iter_contents))
           (for_each (update_service Y env versions branch)) r)"

definition create_branch :: "string \<Rightarrow> unit io" where
  "create_branch branch r =
     io_bind (io_pure (get_branch (default_branch r) r)) (\<lambda>sb.
       create_git_ref (''refs/heads/'' @ branch) sb) r"

definition create_pr :: "string \<Rightarrow> string \<Rightarrow> unit io" where
  "create_pr branch title r = create_pull (default_branch r) branch title r"

text \<open>The parsed command line: a flag that was not given is \<^verbatim>\<open>None\<close>.\<close>

record args =
  source_env :: "string option"
  target_env :: "string option"
  action :: "string option"

text \<open>
  \<^verbatim>\<open>main\<close>. \<open>github_token\<close> is the value of the environment variable read by
  \<^verbatim>\<open>get_repo\<close>, \<open>a\<close> the result of \<^verbatim>\<open>options()\<close> and \<open>today\<close> the date as
  \<^verbatim>\<open>strftime('%Y-%m-%d')\<close> printed it. The three \<^verbatim>\<open>if\<close> statements run one after the
  other, as in the source.
\<close>

definition main :: "yaml_module \<Rightarrow> string option \<Rightarrow> args \<Rightarrow> string \<Rightarrow> unit io" where
  "main Y github_token a today r =
     (case github_token of
        None \<Rightarrow> (Inl (KeyError ''GITHUB_TOKEN''), r)
      | Some _ \<Rightarrow>
         (let env_dir = ''environments/'' @ fstr (target_env a)
          in io_bind
               (if action a = Some ''pause'' then
                  (let new_branch = ''pause-'' @ fstr (target_env a) @ ''-'' @ today
                   in io_bind (create_branch new_branch) (\<lambda>_.
                      io_bind (\<lambda>r1. io_pure (ebind (get_contents env_dir (default_branch r1) r1) iter_contents) r1) (\<lambda>services.
                      io_bind (for_each (\<lambda>svc. pause Y (target_env a) (name svc) new_branch) services) (\<lambda>_.
                        create_pr new_branch (''Freeze the '' @ fstr (target_env a) @ '' environment.'')))))
                else io_pure (Inr ())) (\<lambda>_.
             io_bind
               (if action a = Some ''resume'' then
                  (let new_branch = ''resume-'' @ fstr (target_env a) @ ''-'' @ today
                   in io_bind (create_branch new_branch) (\<lambda>_.
                      io_bind (\<lambda>r1. io_pure (ebind (get_contents env_dir (default_branch r1) r1) iter_contents) r1) (\<lambda>services.
                      io_bind (for_each (\<lambda>svc. resume Y (target_env a) (name svc) new_branch) services) (\<lambda>_.
                        create_pr new_branch (''Unfreeze the '' @ fstr (target_env a) @ '' environment.'')))))
                else io_pure (Inr ())) (\<lambda>_.
               if action a = Some ''push'' then
                 (let new_branch = ''prod-push-'' @ today
                  in io_bind (create_branch new_branch) (\<lambda>_.
                     io_bind (\<lambda>r1. io_pure (get_versions Y ''helm-charts'' (source_env a) r1) r1) (\<lambda>latest_versions.
                     io_bind (update_versions Y (target_env a) latest_versions new_branch) (\<lambda>_.
                       create_pr new_branch ''Production Push.''))))
               else io_pure (Inr ()))) r))"

section \<open>Notions used in the statements\<close>

text \<open>\<^verbatim>\<open>app['metadata']['annotations']\<close>, the annotation map of a manifest.\<close>

definition annotations_of :: "yaml \<Rightarrow> error + yaml" where
  "annotations_of app = ebind (getitem app ''metadata'') (\<lambda>metadata. getitem metadata ''annotations'')"

text \<open>\<^verbatim>\<open>app['spec']['source']['helm']['parameters']\<close>, the Helm parameters of a manifest.\<close>

definition helm_parameters :: "yaml \<Rightarrow> error + yaml" where
  "helm_parameters app =
     ebind (getitem app ''spec'') (\<lambda>spec.
     ebind (getitem spec ''source'') (\<lambda>source.
     ebind (getitem source ''helm'') (\<lambda>helm. getitem helm ''parameters'')))"

text \<open>\<^verbatim>\<open>params['helm']['parameters']\<close>, the Helm parameters of a source-tracking file.\<close>

definition tracking_parameters :: "yaml \<Rightarrow> error + yaml" where
  "tracking_parameters params = ebind (getitem params ''helm'') (\<lambda>helm. getitem helm ''parameters'')"

text \<open>A parameter named \<^verbatim>\<open>image.tag\<close>, and the entry \<^verbatim>\<open>update_versions\<close> appends.\<close>

definition named_image_tag :: "yaml \<Rightarrow> bool" where
  "named_image_tag param \<longleftrightarrow> getitem param ''name'' = Inr (YStr ''image.tag'')"

definition image_tag :: "yaml \<Rightarrow> yaml" where
  "image_tag v = YMap [(''name'', YStr ''image.tag''), (''value'', v)]"

text \<open>
  A call that works on branch \<open>b\<close>: a file update on \<open>b\<close>, or a pull request with head
  \<open>b\<close>. Creating a ref is not one of them.
\<close>

fun targets :: "string \<Rightarrow> call \<Rightarrow> bool" where
  "targets b (UpdateFile p m t s branch) = (branch = b)"
| "targets b (CreatePull base head title) = (head = b)"
| "targets b (CreateGitRef ref commit) = False"

text \<open>
  From \<open>r\<close> to \<open>r'\<close> the remote was only worked on through branch \<open>b\<close>: every call
  made in between targets \<open>b\<close>, and no other ref moved.
\<close>

definition works_on :: "string \<Rightarrow> repo \<Rightarrow> repo \<Rightarrow> bool" where
  "works_on b r r' \<longleftrightarrow>
     default_branch r' = default_branch r \<and>
     (\<forall>ref. ref \<noteq> heads b \<longrightarrow> refs r' ref = refs r ref) \<and>
     (\<exists>cs. calls r' = calls r @ cs \<and> (\<forall>c\<in>set cs. targets b c))"

text \<open>
  A run that first reads the head of the default branch and creates branch \<open>b\<close> there,
  and then only works on \<open>b\<close>. Nothing happens when the default branch cannot be read;
  calls follow the creation only when \<open>b\<close> was new, so \<open>b\<close> is not the default branch.
\<close>

definition branch_run :: "string \<Rightarrow> repo \<Rightarrow> repo \<Rightarrow> bool" where
  "branch_run b r r' \<longleftrightarrow>
     default_branch r' = default_branch r \<and>
     refs r' (heads (default_branch r)) = refs r (heads (default_branch r)) \<and>
     (case get_branch (default_branch r) r of
        Inl e \<Rightarrow> calls r' = calls r
      | Inr sb \<Rightarrow>
          (\<exists>cs. calls r' = calls r @ CreateGitRef (heads b) sb # cs \<and>
             (\<forall>c\<in>set cs. targets b c) \<and>
             (cs \<noteq> [] \<longrightarrow> refs r (heads b) = None \<and> b \<noteq> default_branch r)))"

text \<open>
  Call \<open>c\<close> is the update \<^verbatim>\<open>update_versions\<close> makes for service \<open>s\<close>, whose manifest is
  read from snapshot \<open>d\<close>: the text written is the dump of the edited manifest, whose
  parameter list is the original one without the entries named \<^verbatim>\<open>image.tag\<close>, followed by
  the one new entry.
\<close>

definition service_update ::
  "yaml_module \<Rightarrow> string option \<Rightarrow> (string \<times> yaml) list \<Rightarrow> string \<Rightarrow> snapshot \<Rightarrow> entry \<Rightarrow> call \<Rightarrow> bool" where
  "service_update Y env versions branch d s c \<longleftrightarrow>
     (\<exists>t app app' ps v qs.
        d (path s @ ''/application.yaml'') = Some (Blob t) \<and>
        safe_load Y t = Inr app \<and>
        helm_parameters app = Inr (YSeq ps) \<and>
        map_of versions (name s) = Some v \<and>
        update_edit versions (name s) app = Inr app' \<and>
        helm_parameters app' = Inr (YSeq qs) \<and>
        qs = filter (\<lambda>p. \<not> named_image_tag p) ps @ [image_tag v] \<and>
        filter named_image_tag qs = [image_tag v] \<and>
        last qs = image_tag v \<and>
        c = UpdateFile (path s @ ''/application.yaml'')
              (''Updated '' @ name s @ '' in '' @ fstr env @ ''.'') (dump Y app') t branch)"


section \<open>An example repository\<close>

text \<open>
  One service, \<^verbatim>\<open>svc\<close>, deployed to the environments \<^verbatim>\<open>dev\<close> and \<^verbatim>\<open>staging\<close>, with a
  chart directory whose source-tracking file for \<^verbatim>\<open>dev\<close> is a parameter of the
  example. \<open>example_yaml\<close> stands for the YAML library on the texts of the example: it
  loads and dumps by table look-up.
\<close>

definition example_app :: yaml where
  "example_app =
     YMap [(''metadata'', YMap [(''annotations'', YMap [(''a'', YStr ''1'')])]),
           (''spec'', YMap [(''source'', YMap [(''helm'', YMap [(''parameters'',
              YSeq [YMap [(''name'', YStr ''replicas''), (''value'', YStr ''3'')],
                    YMap [(''name'', YStr ''image.tag''), (''value'', YStr ''v1.0.0'')]])])])])]"

definition example_app_text :: string where
  "example_app_text = ''{metadata: {annotations: {a: '1'}}, spec: {source: {helm: {parameters: [{name: replicas, value: '3'}, {name: image.tag, value: v1.0.0}]}}}}''"

definition paused_app :: yaml where
  "paused_app =
     YMap [(''metadata'', YMap [(''annotations'',
              YMap [(''a'', YStr ''1''), (''argocd-image-updater.argoproj.io/svc.ignore-tags'', YStr ''*'')])]),
           (''spec'', YMap [(''source'', YMap [(''helm'', YMap [(''parameters'',
              YSeq [YMap [(''name'', YStr ''replicas''), (''value'', YStr ''3'')],
                    YMap [(''name'', YStr ''image.tag''), (''value'', YStr ''v1.0.0'')]])])])])]"

definition paused_app_text :: string where
  "paused_app_text = ''{metadata: {annotations: {a: '1', argocd-image-updater.argoproj.io/svc.ignore-tags: '*'}}, spec: {source: {helm: {parameters: [{name: replicas, value: '3'}, {name: image.tag, value: v1.0.0}]}}}}''"

definition updated_app :: yaml where
  "updated_app =
     YMap [(''metadata'', YMap [(''annotations'', YMap [(''a'', YStr ''1'')])]),
           (''spec'', YMap [(''source'', YMap [(''helm'', YMap [(''parameters'',
              YSeq [YMap [(''name'', YStr ''replicas''), (''value'', YStr ''3'')],
                    YMap [(''name'', YStr ''image.tag''), (''value'', YStr ''v1.2.3'')]])])])])]"

definition updated_app_text :: string where
  "updated_app_text = ''{metadata: {annotations: {a: '1'}}, spec: {source: {helm: {parameters: [{name: replicas, value: '3'}, {name: image.tag, value: v1.2.3}]}}}}''"

definition pinned_app :: yaml where
  "pinned_app =
     YMap [(''metadata'', YMap [(''annotations'',
              YMap [(''argocd-image-updater.argoproj.io/svc.ignore-tags'', YStr ''v0.*'')])])]"

definition tagged_text :: string where
  "tagged_text = ''helm: {parameters: [{name: image.tag, value: v1.2.3}]}''"

definition tagged_twice_text :: string where
  "tagged_twice_text = ''helm: {parameters: [{name: image.tag, value: v1.2.3}, {name: image.tag, value: v1.2.4}]}''"

definition untagged_text :: string where
  "untagged_text = ''helm: {parameters: [{name: replicas, value: '3'}]}''"

definition example_texts :: "(string \<times> yaml) list" where
  "example_texts =
     [(example_app_text, example_app),
      (paused_app_text, paused_app),
      (updated_app_text, updated_app),
      (tagged_text, YMap [(''helm'', YMap [(''parameters'',
         YSeq [YMap [(''name'', YStr ''image.tag''), (''value'', YStr ''v1.2.3'')]])])]),
      (tagged_twice_text, YMap [(''helm'', YMap [(''parameters'',
         YSeq [YMap [(''name'', YStr ''image.tag''), (''value'', YStr ''v1.2.3'')],
               YMap [(''name'', YStr ''image.tag''), (''value'', YStr ''v1.2.4'')]])])]),
      (untagged_text, YMap [(''helm'', YMap [(''parameters'',
         YSeq [YMap [(''name'', YStr ''replicas''), (''value'', YStr ''3'')]])])])]"

definition example_yaml :: yaml_module where
  "example_yaml =
     \<lparr>safe_load = (\<lambda>t. case map_of example_texts t of None \<Rightarrow> Inl YAMLError | Some d \<Rightarrow> Inr d),
      dump = (\<lambda>d. case map_of (map (\<lambda>td. (snd td, fst td)) example_texts) d of None \<Rightarrow> [] | Some t \<Rightarrow> t)\<rparr>"

definition example_tree :: "string \<Rightarrow> snapshot" where
  "example_tree tracking =
     map_of [(''environments/dev'', Tree [\<lparr>name = ''svc'', path = ''environments/dev/svc''\<rparr>]),
             (''environments/dev/svc/application.yaml'', Blob example_app_text),
             (''environments/staging'', Tree [\<lparr>name = ''svc'', path = ''environments/staging/svc''\<rparr>]),
             (''environments/staging/svc/application.yaml'', Blob example_app_text),
             (''helm-charts'', Tree [\<lparr>name = ''svc'', path = ''helm-charts/svc''\<rparr>]),
             (''helm-charts/svc/.argocd-source-svc-dev.yaml'', Blob tracking)]"

definition example_repo :: "string \<Rightarrow> repo" where
  "example_repo tracking =
     \<lparr>default_branch = ''main'', refs = [heads ''main'' \<mapsto> example_tree tracking], pulls = [], calls = []\<rparr>"

text \<open>The example repository with a working branch created at the head of the default branch.\<close>

definition branched_repo :: "string \<Rightarrow> string \<Rightarrow> repo" where
  "branched_repo tracking branch =
     \<lparr>default_branch = ''main'',
      refs = [heads ''main'' \<mapsto> example_tree tracking, heads branch \<mapsto> example_tree tracking],
      pulls = [], calls = []\<rparr>"

section \<open>Sequencing and dict look-up\<close>

lemma ebind_simps [simp]: "ebind (Inl e) f = Inl e" "ebind (Inr x) f = f x"
  by (simp_all add: ebind_def)

lemma ebind_eq_Inr: "ebind m f = Inr y \<longleftrightarrow> (\<exists>x. m = Inr x \<and> f x = Inr y)"
  by (cases m) simp_all

lemma getitem_Inr: "getitem d k = Inr v \<longleftrightarrow> (\<exists>al. d = YMap al \<and> map_of al k = Some v)"
  by (cases d) (auto split: option.splits)

lemma getitem_store_same: "getitem d k = Inr v \<Longrightarrow> getitem (store d k w) k = Inr w"
  by (auto simp: getitem_Inr update_conv')

lemma getitem_store_other: "k' \<noteq> k \<Longrightarrow> getitem (store d k w) k' = getitem d k'"
  by (cases d) (simp_all add: update_conv')

lemma store_store: "store (store d k v) k w = store d k w"
  by (cases d) simp_all

lemma store_triv: "getitem d k = Inr v \<Longrightarrow> store d k v = d"
  by (auto simp: getitem_Inr update_triv)

lemma setitem_store: "getitem d k = Inr old \<Longrightarrow> setitem d k v = Inr (store d k v)"
  by (auto simp: getitem_Inr)

lemma delete_absent: "map_of al k = None \<Longrightarrow> AList.delete k al = al"
  by (simp add: map_of_eq_None_iff)

lemma snd_io_pure [simp]: "snd (io_pure x r) = r"
  by (simp add: io_pure_def)

lemma snd_io_bind_skip: "snd (io_bind m (\<lambda>_. io_pure (Inr ())) r) = snd (m r)"
  by (cases "m r") (auto simp: io_bind_def io_pure_def split: sum.splits)

lemma snd_io_bind_skip2:
  "snd (io_bind m (\<lambda>_. io_bind (io_pure (Inr ())) (\<lambda>_. io_pure (Inr ()))) r) = snd (m r)"
  by (cases "m r") (auto simp: io_bind_def io_pure_def split: sum.splits)

lemma heads_inject [simp]: "heads b = heads b' \<longleftrightarrow> b = b'"
  by (simp add: heads_def)

section \<open>The edits\<close>

lemma pause_edit_result:
  assumes "annotations_of app = Inr (YMap an)"
  shows "\<exists>md. getitem app ''metadata'' = Inr md \<and> pause_edit service app =
     Inr (store app ''metadata'' (store md ''annotations''
        (YMap (AList.update (ignore_tags_key service) (YStr ''*'') an))))"
  using assms by (auto simp: annotations_of_def pause_edit_def ebind_eq_Inr)

lemma pause_edit_Inr:
  assumes "pause_edit service app = Inr app'"
  shows "\<exists>an. annotations_of app = Inr (YMap an)"
  using assms
  apply (auto simp: pause_edit_def annotations_of_def ebind_eq_Inr)
  subgoal for md a b by (cases a) simp_all
  done

lemma annotations_of_store:
  assumes "annotations_of app = Inr a" "getitem app ''metadata'' = Inr md"
  shows "annotations_of (store app ''metadata'' (store md ''annotations'' b)) = Inr b"
  using assms by (auto simp: annotations_of_def getitem_store_same)

lemma store_back:
  assumes "annotations_of app = Inr a" "getitem app ''metadata'' = Inr md"
  shows "store app ''metadata'' (store md ''annotations'' a) = app"
proof -
  from assms have "getitem md ''annotations'' = Inr a" by (simp add: annotations_of_def)
  then have "store md ''annotations'' a = md" by (rule store_triv)
  with assms(2) show ?thesis by (simp add: store_triv)
qed

lemma pause_idem: "ebind (pause_edit service app) (pause_edit service) = pause_edit service app"
proof (cases "pause_edit service app")
  case (Inl e)
  then show ?thesis by simp
next
  case (Inr app')
  from pause_edit_Inr [OF Inr] obtain an where an: "annotations_of app = Inr (YMap an)" by blast
  from pause_edit_result [OF an, of service] Inr obtain md where
    md: "getitem app ''metadata'' = Inr md" and
    app': "app' = store app ''metadata'' (store md ''annotations''
        (YMap (AList.update (ignore_tags_key service) (YStr ''*'') an)))"
    by auto
  have an': "annotations_of app' = Inr (YMap (AList.update (ignore_tags_key service) (YStr ''*'') an))"
    unfolding app' by (rule annotations_of_store [OF an md])
  have md': "getitem app' ''metadata'' = Inr (store md ''annotations''
        (YMap (AList.update (ignore_tags_key service) (YStr ''*'') an)))"
    unfolding app' by (rule getitem_store_same [OF md])
  from pause_edit_result [OF an', of service] md'
  have "pause_edit service app' = Inr app'"
    by (simp add: app' store_store)
  with Inr show ?thesis by simp
qed

lemma resume_edit_result:
  assumes "annotations_of app = Inr (YMap an)"
  shows "\<exists>md. getitem app ''metadata'' = Inr md \<and> resume_edit service app =
     Inr (store app ''metadata'' (store md ''annotations''
        (YMap (AList.delete (ignore_tags_key service) an))))"
  using assms by (auto simp: annotations_of_def resume_edit_def ebind_eq_Inr)

lemma keep_params_filter:
  assumes "\<forall>p\<in>set ps. \<exists>n. getitem p ''name'' = Inr n"
  shows "keep_params ps new_params = Inr (new_params @ filter (\<lambda>p. \<not> named_image_tag p) ps)"
  using assms
proof (induction ps arbitrary: new_params)
  case Nil
  then show ?case by simp
next
  case (Cons p ps)
  then obtain n where n: "getitem p ''name'' = Inr n" by auto
  from Cons have IH: "\<And>acc. keep_params ps acc = Inr (acc @ filter (\<lambda>p. \<not> named_image_tag p) ps)"
    by simp
  show ?case by (simp add: n IH named_image_tag_def)
qed

lemma helm_parameters_store:
  assumes "getitem app ''spec'' = Inr spec" "getitem spec ''source'' = Inr source"
    "getitem source ''helm'' = Inr helm" "getitem helm ''parameters'' = Inr old"
  shows "helm_parameters (store app ''spec'' (store spec ''source'' (store source ''helm''
           (store helm ''parameters'' new)))) = Inr new"
  using assms by (simp add: helm_parameters_def getitem_store_same)

lemma update_edit_result:
  assumes params: "helm_parameters app = Inr (YSeq ps)"
    and names: "\<forall>p\<in>set ps. \<exists>n. getitem p ''name'' = Inr n"
    and version: "map_of versions sn = Some v"
  shows "\<exists>app' qs. update_edit versions sn app = Inr app'
     \<and> helm_parameters app' = Inr (YSeq qs)
     \<and> qs = filter (\<lambda>p. \<not> named_image_tag p) ps @ [image_tag v]
     \<and> filter named_image_tag qs = [image_tag v]
     \<and> last qs = image_tag v"
proof -
  from params obtain spec source helm where
    g: "getitem app ''spec'' = Inr spec" "getitem spec ''source'' = Inr source"
       "getitem source ''helm'' = Inr helm" "getitem helm ''parameters'' = Inr (YSeq ps)"
    by (auto simp: helm_parameters_def ebind_eq_Inr)
  let ?qs = "filter (\<lambda>p. \<not> named_image_tag p) ps @ [image_tag v]"
  have e: "update_edit versions sn app =
      Inr (store app ''spec'' (store spec ''source'' (store source ''helm''
           (store helm ''parameters'' (YSeq ?qs)))))"
    by (simp add: update_edit_def g keep_params_filter [OF names] lookup_version_def version
        setitem_store [OF g(4)] image_tag_def)
  have t: "named_image_tag (image_tag v)"
    by (simp add: named_image_tag_def image_tag_def)
  have f: "filter named_image_tag ?qs = [image_tag v]"
    by (simp add: t)
  show ?thesis using e helm_parameters_store [OF g] f by simp
qed

section \<open>Reading the versions\<close>

lemma collect_tags_last:
  assumes "collect_tags sn ps vs = Inr vs'"
  shows "(filter named_image_tag ps = [] \<longrightarrow> vs' = vs) \<and>
         (filter named_image_tag ps \<noteq> [] \<longrightarrow>
            (\<exists>v. getitem (last (filter named_image_tag ps)) ''value'' = Inr v \<and> vs' = AList.update sn v vs))"
  using assms
proof (induction ps arbitrary: vs)
  case Nil
  then show ?case by simp
next
  case (Cons p ps)
  from Cons.prems obtain n where n: "getitem p ''name'' = Inr n"
    by (auto simp: ebind_eq_Inr)
  show ?case
  proof (cases "n = YStr ''image.tag''")
    case False
    with n have nt: "\<not> named_image_tag p" by (simp add: named_image_tag_def)
    from Cons.prems n False have "collect_tags sn ps vs = Inr vs'" by simp
    from Cons.IH [OF this] nt show ?thesis by simp
  next
    case True
    with n have t: "named_image_tag p" by (simp add: named_image_tag_def)
    from Cons.prems n True obtain v0 where v0: "getitem p ''value'' = Inr v0"
      and rest: "collect_tags sn ps (AList.update sn v0 vs) = Inr vs'"
      by (auto simp: ebind_eq_Inr)
    from Cons.IH [OF rest] t v0 show ?thesis by auto
  qed
qed

lemma read_versions_last:
  assumes "read_versions sn params vs = Inr vs'"
  shows "\<exists>parameters ps. tracking_parameters params = Inr parameters \<and> iter parameters = Inr ps \<and>
         (filter named_image_tag ps = [] \<longrightarrow> vs' = vs) \<and>
         (filter named_image_tag ps \<noteq> [] \<longrightarrow>
            (\<exists>v. getitem (last (filter named_image_tag ps)) ''value'' = Inr v \<and> vs' = AList.update sn v vs))"
proof -
  from assms obtain helm parameters ps where
    g: "getitem params ''helm'' = Inr helm" "getitem helm ''parameters'' = Inr parameters"
       "iter parameters = Inr ps" "collect_tags sn ps vs = Inr vs'"
    by (auto simp: read_versions_def ebind_eq_Inr)
  from g(1,2) have "tracking_parameters params = Inr parameters"
    by (simp add: tracking_parameters_def)
  with g(3) collect_tags_last [OF g(4)] show ?thesis by blast
qed

lemma read_versions_other:
  assumes "read_versions sn params vs = Inr vs'" "n \<noteq> sn"
  shows "map_of vs' n = map_of vs n"
proof -
  from read_versions_last [OF assms(1)] obtain ps where
    "filter named_image_tag ps = [] \<longrightarrow> vs' = vs"
    "filter named_image_tag ps \<noteq> [] \<longrightarrow> (\<exists>v. vs' = AList.update sn v vs)"
    by blast
  with assms(2) show ?thesis
    by (cases "filter named_image_tag ps = []") (auto simp: update_conv')
qed

lemma get_versions_loop_other:
  assumes "get_versions_loop Y env r es vs = Inr vs'" "n \<notin> name ` set es"
  shows "map_of vs' n = map_of vs n"
  using assms
proof (induction es arbitrary: vs)
  case Nil
  then show ?case by simp
next
  case (Cons s es)
  from Cons.prems(1) obtain c params vs1 where
    step: "read_versions (name s) params vs = Inr vs1"
    and rest: "get_versions_loop Y env r es vs1 = Inr vs'"
    by (auto simp: ebind_eq_Inr Let_def)
  from Cons.prems(2) have "n \<noteq> name s" "n \<notin> name ` set es" by auto
  with Cons.IH [OF rest] read_versions_other [OF step] show ?case by simp
qed

lemma get_versions_loop_service:
  assumes "get_versions_loop Y env r es vs = Inr vs'" "s \<in> set es" "distinct (map name es)"
  shows "\<exists>c params parameters ps.
           get_contents (argocd_source s env) (default_branch r) r = Inr (File c) \<and>
           safe_load Y (decoded_content c) = Inr params \<and>
           tracking_parameters params = Inr parameters \<and> iter parameters = Inr ps \<and>
           (filter named_image_tag ps = [] \<longrightarrow> map_of vs' (name s) = map_of vs (name s)) \<and>
           (filter named_image_tag ps \<noteq> [] \<longrightarrow>
              (\<exists>v. getitem (last (filter named_image_tag ps)) ''value'' = Inr v \<and>
                   map_of vs' (name s) = Some v))"
  using assms
proof (induction es arbitrary: vs)
  case Nil
  then show ?case by simp
next
  case (Cons x es)
  from Cons.prems(1) obtain f c params vs1 where
    fnd: "get_contents (argocd_source x env) (default_branch r) r = Inr f" "the_file f = Inr c"
    and load: "safe_load Y (decoded_content c) = Inr params"
    and step: "read_versions (name x) params vs = Inr vs1"
    and rest: "get_versions_loop Y env r es vs1 = Inr vs'"
    by (auto simp: ebind_eq_Inr Let_def)
  from fnd(2) have f: "f = File c" by (cases f) (simp_all add: the_file_def)
  show ?case
  proof (cases "s = x")
    case True
    from Cons.prems(3) have "name x \<notin> name ` set es" by auto
    from get_versions_loop_other [OF rest this] have keep: "map_of vs' (name x) = map_of vs1 (name x)" .
    from read_versions_last [OF step] obtain parameters ps where
      p: "tracking_parameters params = Inr parameters" "iter parameters = Inr ps"
      "filter named_image_tag ps = [] \<longrightarrow> vs1 = vs"
      "filter named_image_tag ps \<noteq> [] \<longrightarrow>
            (\<exists>v. getitem (last (filter named_image_tag ps)) ''value'' = Inr v \<and> vs1 = AList.update (name x) v vs)"
      by blast
    have e: "filter named_image_tag ps = [] \<longrightarrow> map_of vs' (name x) = map_of vs (name x)"
      using p(3) keep by simp
    have n: "filter named_image_tag ps \<noteq> [] \<longrightarrow>
            (\<exists>v. getitem (last (filter named_image_tag ps)) ''value'' = Inr v \<and> map_of vs' (name x) = Some v)"
    proof
      assume "filter named_image_tag ps \<noteq> []"
      with p(4) obtain v where v: "getitem (last (filter named_image_tag ps)) ''value'' = Inr v"
        and u: "vs1 = AList.update (name x) v vs" by blast
      from u have "map_of vs1 (name x) = Some v" by (simp add: update_conv')
      with keep v show "\<exists>v. getitem (last (filter named_image_tag ps)) ''value'' = Inr v \<and> map_of vs' (name x) = Some v"
        by simp
    qed
    show ?thesis
      using True fnd(1) f load p(1,2) e n by blast
  next
    case False
    with Cons.prems(2) have in_es: "s \<in> set es" by simp
    from Cons.prems(3) have d: "distinct (map name es)" and nx: "name x \<notin> name ` set es" by auto
    have ne: "name s \<noteq> name x"
    proof
      assume "name s = name x"
      with in_es have "name x \<in> name ` set es" by (metis imageI)
      with nx show False by simp
    qed
    from read_versions_other [OF step ne] have "map_of vs1 (name s) = map_of vs (name s)" .
    with Cons.IH [OF rest in_es d] show ?thesis by simp
  qed
qed


lemma get_versions_Dir:
  assumes "get_contents charts_dir (default_branch r) r = Inr (Dir es)"
  shows "get_versions Y charts_dir env r = get_versions_loop Y env r es []"
  using assms by (simp add: get_versions_def iter_contents_def)






section \<open>The calls the script makes\<close>

lemma calls_update_file: "calls (snd (update_file p m t s b r)) = calls r @ [UpdateFile p m t s b]"
  by (auto simp: update_file_def Let_def split: option.splits node.splits)



lemma update_service_commits:
  assumes "get_contents (path service @ ''/application.yaml'') (default_branch r) r = Inr (File c)"
    and "safe_load Y (decoded_content c) = Inr app"
    and "update_edit versions (name service) app = Inr app'"
  shows "update_service Y env versions branch service r =
     update_file (path c) (''Updated '' @ name service @ '' in '' @ fstr env @ ''.'') (dump Y app') (sha c) branch r"
  using assms by (simp add: update_service_def Let_def io_bind_def io_pure_def the_file_def)

lemma works_on_refl: "works_on b r r"
  by (simp add: works_on_def)

lemma works_on_trans:
  assumes "works_on b r r1" "works_on b r1 r2"
  shows "works_on b r r2"
proof -
  from assms(1) obtain cs where cs: "calls r1 = calls r @ cs" "\<forall>c\<in>set cs. targets b c"
    by (auto simp: works_on_def)
  from assms(2) obtain ds where ds: "calls r2 = calls r1 @ ds" "\<forall>c\<in>set ds. targets b c"
    by (auto simp: works_on_def)
  from cs ds have "calls r2 = calls r @ (cs @ ds)" "\<forall>c\<in>set (cs @ ds). targets b c"
    by auto
  then have "\<exists>es. calls r2 = calls r @ es \<and> (\<forall>c\<in>set es. targets b c)" by blast
  with assms show ?thesis by (simp add: works_on_def)
qed

lemma io_bind_works_on:
  assumes "works_on b r (snd (m r))" "\<And>x r'. works_on b r' (snd (f x r'))"
  shows "works_on b r (snd (io_bind m f r))"
proof (cases "m r")
  case (Pair res r1)
  show ?thesis
  proof (cases res)
    case (Inl e)
    with Pair assms(1) show ?thesis by (simp add: io_bind_def)
  next
    case (Inr x)
    with Pair have "snd (io_bind m f r) = snd (f x r1)" by (simp add: io_bind_def)
    with works_on_trans [of b r r1 "snd (f x r1)"] assms Pair show ?thesis by simp
  qed
qed

lemma for_each_works_on:
  assumes "\<And>x r'. works_on b r' (snd (body x r'))"
  shows "works_on b r (snd (for_each body xs r))"
proof (induction xs arbitrary: r)
  case Nil
  show ?case by (simp add: works_on_refl)
next
  case (Cons x xs)
  show ?case
  proof (cases "body x r")
    case (Pair res r1)
    from assms [of r x] Pair have w: "works_on b r r1" by simp
    show ?thesis
    proof (cases res)
      case (Inl e)
      with Pair w show ?thesis by simp
    next
      case (Inr u)
      with Pair have "snd (for_each body (x # xs) r) = snd (for_each body xs r1)" by simp
      with works_on_trans [OF w Cons.IH [of r1]] show ?thesis by simp
    qed
  qed
qed

lemma update_file_works_on: "works_on b r (snd (update_file p m t s b r))"
  by (auto simp: update_file_def works_on_def Let_def split: option.splits node.splits)

lemma create_pull_works_on: "works_on b r (snd (create_pull base b title r))"
  by (auto simp: create_pull_def works_on_def Let_def split: option.splits)

lemma pause_works_on: "works_on b r (snd (pause Y env service b r))"
  unfolding pause_def Let_def
  by (intro io_bind_works_on update_file_works_on) (simp_all add: works_on_refl)

lemma resume_works_on: "works_on b r (snd (resume Y env service b r))"
  unfolding resume_def Let_def
  by (intro io_bind_works_on update_file_works_on) (simp_all add: works_on_refl)

lemma update_service_works_on: "works_on b r (snd (update_service Y env versions b service r))"
  unfolding update_service_def Let_def
  by (intro io_bind_works_on update_file_works_on) (simp_all add: works_on_refl)

lemma update_versions_works_on: "works_on b r (snd (update_versions Y env versions b r))"
  unfolding update_versions_def Let_def
  by (intro io_bind_works_on for_each_works_on update_service_works_on) (simp_all add: works_on_refl)

lemma create_pr_works_on: "works_on b r (snd (create_pr b title r))"
  by (simp add: create_pr_def create_pull_works_on)

lemma read_works_on: "works_on b r (snd (io_pure (g r) r))"
  by (simp add: works_on_refl)

lemma block_branch_run:
  assumes rest: "\<And>r1. works_on b r1 (snd (rest r1))"
  shows "branch_run b r (snd (io_bind (create_branch b) (\<lambda>_. rest) r))"
proof (cases "get_branch (default_branch r) r")
  case (Inl e)
  then have "snd (io_bind (create_branch b) (\<lambda>_. rest) r) = r"
    by (simp add: io_bind_def create_branch_def io_pure_def)
  with Inl show ?thesis by (simp add: branch_run_def)
next
  case (Inr sb)
  then have sb: "refs r (heads (default_branch r)) = Some sb"
    by (simp add: get_branch_def split: option.splits)
  let ?r0 = "r\<lparr>calls := calls r @ [CreateGitRef (heads b) sb]\<rparr>"
  show ?thesis
  proof (cases "refs r (heads b)")
    case (Some old)
    with Inr have "snd (io_bind (create_branch b) (\<lambda>_. rest) r) = ?r0"
      by (simp add: io_bind_def create_branch_def io_pure_def create_git_ref_def heads_def)
    with Inr show ?thesis by (simp add: branch_run_def)
  next
    case None
    let ?r1 = "?r0\<lparr>refs := (refs r)(heads b \<mapsto> sb)\<rparr>"
    from None Inr have run: "snd (io_bind (create_branch b) (\<lambda>_. rest) r) = snd (rest ?r1)"
      by (simp add: io_bind_def create_branch_def io_pure_def create_git_ref_def heads_def)
    from None sb have ne: "b \<noteq> default_branch r" by auto
    from rest [of ?r1] obtain cs where
      d: "default_branch (snd (rest ?r1)) = default_branch r"
      and f: "\<forall>ref. ref \<noteq> heads b \<longrightarrow> refs (snd (rest ?r1)) ref = refs ?r1 ref"
      and cs: "calls (snd (rest ?r1)) = calls r @ CreateGitRef (heads b) sb # cs" "\<forall>c\<in>set cs. targets b c"
      by (auto simp: works_on_def)
    from f ne have keep: "refs (snd (rest ?r1)) (heads (default_branch r)) = refs r (heads (default_branch r))"
      by simp
    show ?thesis
      unfolding branch_run_def run
      using d keep cs Inr None ne by simp
  qed
qed

lemma main_pause_run:
  assumes "action a = Some ''pause''"
  shows "branch_run (''pause-'' @ fstr (target_env a) @ ''-'' @ today) r (snd (main Y (Some t) a today r))"
proof -
  let ?b = "''pause-'' @ fstr (target_env a) @ ''-'' @ today"
  let ?rest = "io_bind (\<lambda>r1. io_pure (ebind (get_contents (''environments/'' @ fstr (target_env a)) (default_branch r1) r1) iter_contents) r1) (\<lambda>services.
                      io_bind (for_each (\<lambda>svc. pause Y (target_env a) (name svc) ?b) services) (\<lambda>_.
                        create_pr ?b (''Freeze the '' @ fstr (target_env a) @ '' environment.'')))"
  have w: "\<And>r1. works_on ?b r1 (snd (?rest r1))"
    by (intro io_bind_works_on for_each_works_on pause_works_on create_pr_works_on read_works_on)
  from assms have "snd (main Y (Some t) a today r) = snd (io_bind (create_branch ?b) (\<lambda>_. ?rest) r)"
    by (simp add: main_def Let_def snd_io_bind_skip2)
  with block_branch_run [of ?b ?rest r, OF w] show ?thesis by simp
qed

lemma main_resume_run:
  assumes "action a = Some ''resume''"
  shows "branch_run (''resume-'' @ fstr (target_env a) @ ''-'' @ today) r (snd (main Y (Some t) a today r))"
proof -
  let ?b = "''resume-'' @ fstr (target_env a) @ ''-'' @ today"
  let ?rest = "io_bind (\<lambda>r1. io_pure (ebind (get_contents (''environments/'' @ fstr (target_env a)) (default_branch r1) r1) iter_contents) r1) (\<lambda>services.
                      io_bind (for_each (\<lambda>svc. resume Y (target_env a) (name svc) ?b) services) (\<lambda>_.
                        create_pr ?b (''Unfreeze the '' @ fstr (target_env a) @ '' environment.'')))"
  have w: "\<And>r1. works_on ?b r1 (snd (?rest r1))"
    by (intro io_bind_works_on for_each_works_on resume_works_on create_pr_works_on read_works_on)
  from assms have "snd (main Y (Some t) a today r) = snd (io_bind (create_branch ?b) (\<lambda>_. ?rest) r)"
    by (simp add: main_def Let_def snd_io_bind_skip io_bind_def [of "io_pure (Inr ())"] io_pure_def [of "Inr ()"])
  with block_branch_run [of ?b ?rest r, OF w] show ?thesis by simp
qed

lemma main_push_run:
  assumes "action a = Some ''push''"
  shows "branch_run (''prod-push-'' @ today) r (snd (main Y (Some t) a today r))"
proof -
  let ?b = "''prod-push-'' @ today"
  let ?rest = "io_bind (\<lambda>r1. io_pure (get_versions Y ''helm-charts'' (source_env a) r1) r1) (\<lambda>latest_versions.
                     io_bind (update_versions Y (target_env a) latest_versions ?b) (\<lambda>_.
                       create_pr ?b ''Production Push.''))"
  have w: "\<And>r1. works_on ?b r1 (snd (?rest r1))"
    by (intro io_bind_works_on update_versions_works_on create_pr_works_on read_works_on)
  from assms have "snd (main Y (Some t) a today r) = snd (io_bind (create_branch ?b) (\<lambda>_. ?rest) r)"
    by (simp add: main_def Let_def io_bind_def [of "io_pure (Inr ())"] io_pure_def [of "Inr ()"])
  with block_branch_run [of ?b ?rest r, OF w] show ?thesis by simp
qed

lemma main_other:
  assumes "action a \<noteq> Some ''pause''" "action a \<noteq> Some ''resume''" "action a \<noteq> Some ''push''"
  shows "main Y tok a today r = (case tok of None \<Rightarrow> (Inl (KeyError ''GITHUB_TOKEN''), r) | Some _ \<Rightarrow> (Inr (), r))"
  using assms by (simp add: main_def io_bind_def io_pure_def split: option.splits)

lemma branch_run_writes:
  assumes "branch_run b r r'"
  shows "(\<exists>cs. calls r' = calls r @ cs \<and>
           (\<forall>p m t s b'. UpdateFile p m t s b' \<in> set cs \<longrightarrow>
              b' \<noteq> default_branch r \<and> refs r (heads b') = None \<and>
              (\<exists>sb. get_branch (default_branch r) r = Inr sb \<and> hd cs = CreateGitRef (heads b') sb))) \<and>
         refs r' (heads (default_branch r)) = refs r (heads (default_branch r))"
proof (cases "get_branch (default_branch r) r")
  case (Inl e)
  with assms have "calls r' = calls r @ []" by (simp add: branch_run_def)
  moreover from assms have "refs r' (heads (default_branch r)) = refs r (heads (default_branch r))"
    by (simp add: branch_run_def)
  ultimately show ?thesis by fastforce
next
  case (Inr sb)
  with assms obtain cs where cs: "calls r' = calls r @ CreateGitRef (heads b) sb # cs"
    "\<forall>c\<in>set cs. targets b c" "cs \<noteq> [] \<longrightarrow> refs r (heads b) = None \<and> b \<noteq> default_branch r"
    by (auto simp: branch_run_def)
  have "b' \<noteq> default_branch r \<and> refs r (heads b') = None \<and>
        (\<exists>sb'. get_branch (default_branch r) r = Inr sb' \<and>
           hd (CreateGitRef (heads b) sb # cs) = CreateGitRef (heads b') sb')"
    if "UpdateFile p m t s b' \<in> set (CreateGitRef (heads b) sb # cs)" for p m t s b'
  proof -
    from that have in_cs: "UpdateFile p m t s b' \<in> set cs" by simp
    with cs(2) have "targets b (UpdateFile p m t s b')" by blast
    then have "b' = b" by simp
    moreover from in_cs have "cs \<noteq> []" by auto
    ultimately show ?thesis using cs(3) Inr by simp
  qed
  moreover from assms have "refs r' (heads (default_branch r)) = refs r (heads (default_branch r))"
    by (simp add: branch_run_def)
  ultimately show ?thesis using cs(1) by blast
qed

lemma main_cases:
  obtains (no_token) "tok = None" "main Y tok a today r = (Inl (KeyError ''GITHUB_TOKEN''), r)"
  | (other) "snd (main Y tok a today r) = r"
  | (run) b where "branch_run b r (snd (main Y tok a today r))"
proof (cases tok)
  case None
  then have "main Y tok a today r = (Inl (KeyError ''GITHUB_TOKEN''), r)" by (simp add: main_def)
  with None show ?thesis by (rule no_token)
next
  case (Some t)
  show ?thesis
  proof (cases "action a = Some ''pause''")
    case True
    have "\<exists>b. branch_run b r (snd (main Y tok a today r))"
      unfolding Some using main_pause_run [OF True, of today r Y t] by blast
    then show ?thesis by (auto intro: run)
  next
    case np: False
    show ?thesis
    proof (cases "action a = Some ''resume''")
      case True
      have "\<exists>b. branch_run b r (snd (main Y tok a today r))"
      unfolding Some using main_resume_run [OF True, of today r Y t] by blast
    then show ?thesis by (auto intro: run)
    next
      case nr: False
      show ?thesis
      proof (cases "action a = Some ''push''")
        case True
        have "\<exists>b. branch_run b r (snd (main Y tok a today r))"
      unfolding Some using main_push_run [OF True, of today r Y t] by blast
    then show ?thesis by (auto intro: run)
      next
        case False
        from main_other [OF np nr False, of Y tok today r] Some show ?thesis
          by (auto intro: other)
      qed
    qed
  qed
qed

lemma update_service_step:
  assumes d: "refs r (heads (default_branch r)) = Some d"
    and w: "refs r (heads branch) = Some w"
    and blob: "d (path s @ ''/application.yaml'') = Some (Blob t)"
    and same: "w (path s @ ''/application.yaml'') = Some (Blob t)"
    and load: "safe_load Y t = Inr app"
    and edit: "update_edit versions (name s) app = Inr app'"
  shows "update_service Y env versions branch s r =
     (Inr (), r\<lparr>calls := calls r @ [UpdateFile (path s @ ''/application.yaml'')
                     (''Updated '' @ name s @ '' in '' @ fstr env @ ''.'') (dump Y app') t branch],
               refs := (refs r)(heads branch \<mapsto> w(path s @ ''/application.yaml'' \<mapsto> Blob (dump Y app')))\<rparr>)"
  using assms
  by (simp add: update_service_def Let_def get_contents_def the_file_def io_bind_def io_pure_def
      update_file_def)

lemma update_services_loop:
  assumes "refs r (heads (default_branch r)) = Some d"
    and "refs r (heads branch) = Some w"
    and "branch \<noteq> default_branch r"
    and "distinct (map path es)"
    and "\<forall>s\<in>set es. \<exists>t app ps v.
           d (path s @ ''/application.yaml'') = Some (Blob t) \<and>
           w (path s @ ''/application.yaml'') = Some (Blob t) \<and>
           safe_load Y t = Inr app \<and>
           helm_parameters app = Inr (YSeq ps) \<and>
           (\<forall>p\<in>set ps. \<exists>n. getitem p ''name'' = Inr n) \<and>
           map_of versions (name s) = Some v"
  shows "\<exists>r' cs. for_each (update_service Y env versions branch) es r = (Inr (), r') \<and>
           calls r' = calls r @ cs \<and>
           list_all2 (service_update Y env versions branch d) es cs"
  using assms
proof (induction es arbitrary: r w)
  case Nil
  then show ?case by simp
next
  case (Cons s es)
  let ?p = "path s @ ''/application.yaml''"
  from Cons.prems(5) obtain t app ps v where
    s: "d ?p = Some (Blob t)" "w ?p = Some (Blob t)" "safe_load Y t = Inr app"
       "helm_parameters app = Inr (YSeq ps)" "\<forall>p\<in>set ps. \<exists>n. getitem p ''name'' = Inr n"
       "map_of versions (name s) = Some v"
    by auto
  from update_edit_result [OF s(4) s(5) s(6)] obtain app' qs where
    e: "update_edit versions (name s) app = Inr app'"
       "helm_parameters app' = Inr (YSeq qs)"
       "qs = filter (\<lambda>p. \<not> named_image_tag p) ps @ [image_tag v]"
       "filter named_image_tag qs = [image_tag v]" "last qs = image_tag v"
    by blast
  let ?c = "UpdateFile ?p (''Updated '' @ name s @ '' in '' @ fstr env @ ''.'') (dump Y app') t branch"
  let ?w1 = "w(?p \<mapsto> Blob (dump Y app'))"
  let ?r1 = "r\<lparr>calls := calls r @ [?c], refs := (refs r)(heads branch \<mapsto> ?w1)\<rparr>"
  have step: "update_service Y env versions branch s r = (Inr (), ?r1)"
    by (rule update_service_step [OF Cons.prems(1) Cons.prems(2) s(1) s(2) s(3) e(1)])
  have su: "service_update Y env versions branch d s ?c"
    unfolding service_update_def using s e by blast
  have d1: "refs ?r1 (heads (default_branch ?r1)) = Some d"
    using Cons.prems(1) Cons.prems(3) by simp
  have w1: "refs ?r1 (heads branch) = Some ?w1" by simp
  have ne1: "branch \<noteq> default_branch ?r1" using Cons.prems(3) by simp
  from Cons.prems(4) have dist: "distinct (map path es)" and fresh: "path s \<notin> path ` set es"
    by auto
  have rest: "\<forall>s'\<in>set es. \<exists>t app ps v.
           d (path s' @ ''/application.yaml'') = Some (Blob t) \<and>
           ?w1 (path s' @ ''/application.yaml'') = Some (Blob t) \<and>
           safe_load Y t = Inr app \<and>
           helm_parameters app = Inr (YSeq ps) \<and>
           (\<forall>p\<in>set ps. \<exists>n. getitem p ''name'' = Inr n) \<and>
           map_of versions (name s') = Some v"
  proof
    fix s' assume in_es: "s' \<in> set es"
    have "path s' \<noteq> path s"
    proof
      assume "path s' = path s"
      with in_es have "path s \<in> path ` set es" by (metis imageI)
      with fresh show False by simp
    qed
    then have "?w1 (path s' @ ''/application.yaml'') = w (path s' @ ''/application.yaml'')"
      by simp
    with Cons.prems(5) in_es show "\<exists>t app ps v.
           d (path s' @ ''/application.yaml'') = Some (Blob t) \<and>
           ?w1 (path s' @ ''/application.yaml'') = Some (Blob t) \<and>
           safe_load Y t = Inr app \<and>
           helm_parameters app = Inr (YSeq ps) \<and>
           (\<forall>p\<in>set ps. \<exists>n. getitem p ''name'' = Inr n) \<and>
           map_of versions (name s') = Some v"
      by simp
  qed
  from Cons.IH [OF d1 w1 ne1 dist rest] obtain r' cs where
    ih: "for_each (update_service Y env versions branch) es ?r1 = (Inr (), r')"
        "calls r' = calls ?r1 @ cs"
        "list_all2 (service_update Y env versions branch d) es cs"
    by blast
  have "for_each (update_service Y env versions branch) (s # es) r = (Inr (), r')"
    using step ih(1) by simp
  moreover have "calls r' = calls r @ (?c # cs)" using ih(2) by simp
  moreover have "list_all2 (service_update Y env versions branch d) (s # es) (?c # cs)"
    using su ih(3) by simp
  ultimately show ?case by blast
qed

lemma update_service_image_tag:
  assumes found: "get_contents (path service @ ''/application.yaml'') (default_branch r) r = Inr (File c)"
    and load: "safe_load Y (decoded_content c) = Inr app"
    and params: "helm_parameters app = Inr (YSeq ps)"
    and names: "\<forall>p\<in>set ps. \<exists>n. getitem p ''name'' = Inr n"
    and version: "map_of versions (name service) = Some v"
  shows "\<exists>app' qs. update_edit versions (name service) app = Inr app'
     \<and> helm_parameters app' = Inr (YSeq qs)
     \<and> qs = filter (\<lambda>p. \<not> named_image_tag p) ps @ [image_tag v]
     \<and> filter named_image_tag qs = [image_tag v]
     \<and> last qs = image_tag v
     \<and> calls (snd (update_service Y env versions branch service r)) =
         calls r @ [UpdateFile (path c) (''Updated '' @ name service @ '' in '' @ fstr env @ ''.'')
                      (dump Y app') (sha c) branch]"
proof -
  from params obtain spec source helm where
    g: "getitem app ''spec'' = Inr spec" "getitem spec ''source'' = Inr source"
       "getitem source ''helm'' = Inr helm" "getitem helm ''parameters'' = Inr (YSeq ps)"
    by (auto simp: helm_parameters_def ebind_eq_Inr)
  let ?qs = "filter (\<lambda>p. \<not> named_image_tag p) ps @ [image_tag v]"
  let ?app' = "store app ''spec'' (store spec ''source'' (store source ''helm''
           (store helm ''parameters'' (YSeq ?qs))))"
  have e: "update_edit versions (name service) app = Inr ?app'"
    by (simp add: update_edit_def g keep_params_filter [OF names] lookup_version_def version
        setitem_store [OF g(4)] image_tag_def)
  have t: "named_image_tag (image_tag v)"
    by (simp add: named_image_tag_def image_tag_def)
  have f: "filter named_image_tag ?qs = [image_tag v]"
    by (simp add: t)
  have c: "calls (snd (update_service Y env versions branch service r)) =
         calls r @ [UpdateFile (path c) (''Updated '' @ name service @ '' in '' @ fstr env @ ''.'')
                      (dump Y ?app') (sha c) branch]"
    by (simp add: update_service_commits [OF found load e] calls_update_file)
  show ?thesis using e helm_parameters_store [OF g] f c by simp
qed

section \<open>The example repository, evaluated\<close>

lemmas ex_defs = example_repo_def example_tree_def example_yaml_def example_texts_def example_app_def
  paused_app_def paused_app_text_def updated_app_def updated_app_text_def
  example_app_text_def tagged_text_def tagged_twice_text_def untagged_text_def heads_def


lemma example_load: "safe_load example_yaml example_app_text = Inr example_app"
  by (simp add: example_yaml_def example_texts_def)

lemma example_annotations: "annotations_of example_app = Inr (YMap [(''a'', YStr ''1'')])"
  by (simp add: example_app_def annotations_of_def)

lemma example_parameters:
  "helm_parameters example_app =
     Inr (YSeq [YMap [(''name'', YStr ''replicas''), (''value'', YStr ''3'')],
                YMap [(''name'', YStr ''image.tag''), (''value'', YStr ''v1.0.0'')]])"
  by (simp add: example_app_def helm_parameters_def)

lemma example_listing:
  "get_contents ''helm-charts'' (default_branch (example_repo t)) (example_repo t) =
     Inr (Dir [\<lparr>name = ''svc'', path = ''helm-charts/svc''\<rparr>])"
  by (simp add: example_repo_def example_tree_def get_contents_def)

lemma example_tracking:
  "get_contents (argocd_source \<lparr>name = ''svc'', path = ''helm-charts/svc''\<rparr> (Some ''dev''))
     (default_branch (example_repo t)) (example_repo t) =
     Inr (File \<lparr>name = ''.argocd-source-svc-dev.yaml'',
                path = ''helm-charts/svc/.argocd-source-svc-dev.yaml'',
                sha = t, decoded_content = t\<rparr>)"
  by (simp add: example_repo_def example_tree_def get_contents_def argocd_source_def fstr_def
      basename_def)

lemma example_get_versions_untagged:
  "get_versions example_yaml ''helm-charts'' (Some ''dev'') (example_repo untagged_text) = Inr []"
  by (simp add: ex_defs get_versions_def get_contents_def iter_contents_def the_file_def
      argocd_source_def fstr_def read_versions_def Let_def)

lemma example_get_versions_twice:
  "get_versions example_yaml ''helm-charts'' (Some ''dev'') (example_repo tagged_twice_text) =
     Inr [(''svc'', YStr ''v1.2.4'')]"
  by (simp add: ex_defs get_versions_def get_contents_def iter_contents_def the_file_def
      argocd_source_def fstr_def read_versions_def Let_def)

lemma example_main_pause:
  "calls (snd (main example_yaml (Some ''token'')
       \<lparr>source_env = None, target_env = Some ''staging'', action = Some ''pause''\<rparr>
       ''2024-01-01'' (example_repo tagged_text))) =
     [CreateGitRef ''refs/heads/pause-staging-2024-01-01'' (example_tree tagged_text),
      UpdateFile ''environments/staging/svc/application.yaml'' ''Pause svc in staging.''
        paused_app_text example_app_text ''pause-staging-2024-01-01'',
      CreatePull ''main'' ''pause-staging-2024-01-01'' ''Freeze the staging environment.'']"
  by (simp add: ex_defs main_def create_branch_def create_git_ref_def get_branch_def io_bind_def
      io_pure_def get_contents_def iter_contents_def the_file_def application_yaml_def fstr_def
      pause_def pause_edit_def ignore_tags_key_def update_file_def create_pr_def create_pull_def
      basename_def Let_def)

text \<open>The three scenarios of the spec, on the edits and on \<^verbatim>\<open>get_versions\<close>.\<close>

lemma pause_scenario:
  "pause_edit ''svc'' (YMap [(''metadata'', YMap [(''annotations'', YMap [(''a'', YStr ''1'')])])]) =
     Inr (YMap [(''metadata'', YMap [(''annotations'',
       YMap [(''a'', YStr ''1''), (''argocd-image-updater.argoproj.io/svc.ignore-tags'', YStr ''*'')])])])"
  by (simp add: pause_edit_def ignore_tags_key_def)

lemma get_versions_scenario:
  "get_versions example_yaml ''helm-charts'' (Some ''dev'') (example_repo tagged_text) =
     Inr [(''svc'', YStr ''v1.2.3'')]"
  by (simp add: ex_defs get_versions_def get_contents_def iter_contents_def the_file_def
      argocd_source_def fstr_def read_versions_def Let_def)

lemma update_versions_scenario:
  "update_edit [(''svc'', YStr ''v1.2.3'')] ''svc'' example_app = Inr updated_app"
  by (simp add: example_app_def updated_app_def update_edit_def lookup_version_def)

section \<open>The claims\<close>

text \<open>
  C1. \<^verbatim>\<open>update_versions\<close> on a working branch that holds the manifests of the default
  branch: when the manifest of every listed service loads, has a list of Helm
  parameters that all have a name, and the versions mapping contains the service, then
  \<^verbatim>\<open>update_versions\<close> ends normally and makes one \<^verbatim>\<open>update_file\<close> call per service, in the
  order of the listing. The manifest written for a service has the parameter list of
  the original without its entries named \<^verbatim>\<open>image.tag\<close>, in their order, followed by the
  one entry \<^verbatim>\<open>{name: image.tag, value: versions[service]}\<close>: exactly one entry is named
  \<^verbatim>\<open>image.tag\<close>, and it is the last one.
\<close>

theorem update_versions_image_tag:
  assumes head: "get_branch (default_branch r) r = Inr d"
    and work: "get_branch branch r = Inr w"
    and ne: "branch \<noteq> default_branch r"
    and listing: "d (''environments/'' @ fstr env) = Some (Tree es)"
    and paths: "distinct (map path es)"
    and manifests: "\<forall>s\<in>set es. \<exists>t app ps v.
           d (path s @ ''/application.yaml'') = Some (Blob t) \<and>
           w (path s @ ''/application.yaml'') = Some (Blob t) \<and>
           safe_load Y t = Inr app \<and>
           helm_parameters app = Inr (YSeq ps) \<and>
           (\<forall>p\<in>set ps. \<exists>n. getitem p ''name'' = Inr n) \<and>
           map_of versions (name s) = Some v"
  shows "fst (update_versions Y env versions branch r) = Inr () \<and>
         (\<exists>cs. calls (snd (update_versions Y env versions branch r)) = calls r @ cs \<and>
            list_all2 (\<lambda>s c. \<exists>t app app' ps v qs.
                d (path s @ ''/application.yaml'') = Some (Blob t) \<and>
                safe_load Y t = Inr app \<and>
                helm_parameters app = Inr (YSeq ps) \<and>
                map_of versions (name s) = Some v \<and>
                update_edit versions (name s) app = Inr app' \<and>
                helm_parameters app' = Inr (YSeq qs) \<and>
                qs = filter (\<lambda>p. \<not> named_image_tag p) ps @ [image_tag v] \<and>
                filter named_image_tag qs = [image_tag v] \<and>
                last qs = image_tag v \<and>
                c = UpdateFile (path s @ ''/application.yaml'')
                      (''Updated '' @ name s @ '' in '' @ fstr env @ ''.'') (dump Y app') t branch)
              es cs)"
proof -
  from head have d: "refs r (heads (default_branch r)) = Some d"
    by (simp add: get_branch_def split: option.splits)
  from work have w: "refs r (heads branch) = Some w"
    by (simp add: get_branch_def split: option.splits)
  from d listing have run: "update_versions Y env versions branch r =
      for_each (update_service Y env versions branch) es r"
    by (simp add: update_versions_def Let_def get_contents_def iter_contents_def io_bind_def io_pure_def)
  from update_services_loop [OF d w ne paths manifests, of env] obtain r' cs where
    "for_each (update_service Y env versions branch) es r = (Inr (), r')"
    "calls r' = calls r @ cs"
    "list_all2 (service_update Y env versions branch d) es cs"
    by blast
  with run show ?thesis
    unfolding service_update_def [abs_def] by auto
qed

theorem update_versions_image_tag_witness:
  "fst (update_versions example_yaml (Some ''staging'') [(''svc'', YStr ''v1.2.3'')]
          ''prod-push-2024-01-01'' (branched_repo tagged_text ''prod-push-2024-01-01'')) = Inr () \<and>
   (\<exists>app'. helm_parameters app' =
        Inr (YSeq [YMap [(''name'', YStr ''replicas''), (''value'', YStr ''3'')],
                   YMap [(''name'', YStr ''image.tag''), (''value'', YStr ''v1.2.3'')]]) \<and>
      calls (snd (update_versions example_yaml (Some ''staging'') [(''svc'', YStr ''v1.2.3'')]
          ''prod-push-2024-01-01'' (branched_repo tagged_text ''prod-push-2024-01-01''))) =
        [UpdateFile ''environments/staging/svc/application.yaml'' ''Updated svc in staging.''
           (dump example_yaml app') example_app_text ''prod-push-2024-01-01''])"
proof -
  let ?r = "branched_repo tagged_text ''prod-push-2024-01-01''"
  let ?s = "\<lparr>name = ''svc'', path = ''environments/staging/svc''\<rparr>"
  let ?ps = "[YMap [(''name'', YStr ''replicas''), (''value'', YStr ''3'')],
              YMap [(''name'', YStr ''image.tag''), (''value'', YStr ''v1.0.0'')]]"
  have head: "get_branch (default_branch ?r) ?r = Inr (example_tree tagged_text)"
    by (simp add: branched_repo_def get_branch_def heads_def)
  have work: "get_branch ''prod-push-2024-01-01'' ?r = Inr (example_tree tagged_text)"
    by (simp add: branched_repo_def get_branch_def heads_def)
  have ne: "''prod-push-2024-01-01'' \<noteq> default_branch ?r"
    by (simp add: branched_repo_def)
  have listing: "example_tree tagged_text (''environments/'' @ fstr (Some ''staging'')) = Some (Tree [?s])"
    by (simp add: example_tree_def fstr_def)
  have paths: "distinct (map path [?s])" by simp
  have blob: "example_tree tagged_text (path ?s @ ''/application.yaml'') = Some (Blob example_app_text)"
    by (simp add: example_tree_def)
  have names: "\<forall>p\<in>set ?ps. \<exists>n. getitem p ''name'' = Inr n" by simp
  have manifests: "\<forall>s\<in>set [?s]. \<exists>t app ps v.
           example_tree tagged_text (path s @ ''/application.yaml'') = Some (Blob t) \<and>
           example_tree tagged_text (path s @ ''/application.yaml'') = Some (Blob t) \<and>
           safe_load example_yaml t = Inr app \<and>
           helm_parameters app = Inr (YSeq ps) \<and>
           (\<forall>p\<in>set ps. \<exists>n. getitem p ''name'' = Inr n) \<and>
           map_of [(''svc'', YStr ''v1.2.3'')] (name s) = Some v"
    using blob example_load example_parameters names by simp
  from update_versions_image_tag [OF head work ne listing paths manifests]
  have ok: "fst (update_versions example_yaml (Some ''staging'') [(''svc'', YStr ''v1.2.3'')]
          ''prod-push-2024-01-01'' ?r) = Inr ()"
    and "\<exists>cs. calls (snd (update_versions example_yaml (Some ''staging'') [(''svc'', YStr ''v1.2.3'')]
          ''prod-push-2024-01-01'' ?r)) = calls ?r @ cs \<and>
            list_all2 (\<lambda>s c. \<exists>t app app' ps v qs.
                example_tree tagged_text (path s @ ''/application.yaml'') = Some (Blob t) \<and>
                safe_load example_yaml t = Inr app \<and>
                helm_parameters app = Inr (YSeq ps) \<and>
                map_of [(''svc'', YStr ''v1.2.3'')] (name s) = Some v \<and>
                update_edit [(''svc'', YStr ''v1.2.3'')] (name s) app = Inr app' \<and>
                helm_parameters app' = Inr (YSeq qs) \<and>
                qs = filter (\<lambda>p. \<not> named_image_tag p) ps @ [image_tag v] \<and>
                filter named_image_tag qs = [image_tag v] \<and>
                last qs = image_tag v \<and>
                c = UpdateFile (path s @ ''/application.yaml'')
                      (''Updated '' @ name s @ '' in '' @ fstr (Some ''staging'') @ ''.'')
                      (dump example_yaml app') t ''prod-push-2024-01-01'')
              [?s] cs"
    by blast+
  then obtain c t app app' ps v qs where
    c: "calls (snd (update_versions example_yaml (Some ''staging'') [(''svc'', YStr ''v1.2.3'')]
          ''prod-push-2024-01-01'' ?r)) = calls ?r @ [c]"
    and f: "example_tree tagged_text (path ?s @ ''/application.yaml'') = Some (Blob t)"
      "safe_load example_yaml t = Inr app" "helm_parameters app = Inr (YSeq ps)"
      "map_of [(''svc'', YStr ''v1.2.3'')] (name ?s) = Some v"
      "helm_parameters app' = Inr (YSeq qs)"
      "qs = filter (\<lambda>p. \<not> named_image_tag p) ps @ [image_tag v]"
      "c = UpdateFile (path ?s @ ''/application.yaml'')
                      (''Updated '' @ name ?s @ '' in '' @ fstr (Some ''staging'') @ ''.'')
                      (dump example_yaml app') t ''prod-push-2024-01-01''"
    by (auto simp: list_all2_Cons1)
  from f(1) blob have t: "t = example_app_text" by simp
  with f(2) example_load have app: "app = example_app" by simp
  with f(3) example_parameters have ps: "ps = ?ps" by simp
  from f(4) have v: "v = YStr ''v1.2.3''" by simp
  from f(5,6) ps v have "helm_parameters app' =
        Inr (YSeq [YMap [(''name'', YStr ''replicas''), (''value'', YStr ''3'')],
                   YMap [(''name'', YStr ''image.tag''), (''value'', YStr ''v1.2.3'')]])"
    by (simp add: named_image_tag_def image_tag_def)
  moreover from c f(7) t have "calls (snd (update_versions example_yaml (Some ''staging'') [(''svc'', YStr ''v1.2.3'')]
          ''prod-push-2024-01-01'' ?r)) =
        [UpdateFile ''environments/staging/svc/application.yaml'' ''Updated svc in staging.''
           (dump example_yaml app') example_app_text ''prod-push-2024-01-01'']"
    by (simp add: fstr_def branched_repo_def)
  ultimately show ?thesis using ok by blast
qed

text \<open>
  C2, as stated: \<^verbatim>\<open>pause\<close> followed by \<^verbatim>\<open>resume\<close> restores the annotation map, also when
  the ignore-tags key was present before. It does not: a manifest that already carries
  the key loses it.
\<close>

theorem pause_resume_counterexample:
  "ebind (ebind (pause_edit ''svc'' pinned_app) (resume_edit ''svc'')) annotations_of
     \<noteq> annotations_of pinned_app"
  by (simp add: pinned_app_def pause_edit_def resume_edit_def annotations_of_def ignore_tags_key_def)

text \<open>
  C2, amended. The edit of \<^verbatim>\<open>pause\<close> followed by the edit of \<^verbatim>\<open>resume\<close> leaves the
  annotation map of the manifest without the ignore-tags key of the service and with
  every other entry as it was. When the key was absent before \<^verbatim>\<open>pause\<close> the whole manifest
  is the original one; when it was present the annotation map differs from the original.
\<close>

theorem pause_resume_round_trip:
  assumes "annotations_of app = Inr (YMap an)"
  shows "\<exists>app' app''. pause_edit service app = Inr app' \<and> resume_edit service app' = Inr app''
     \<and> annotations_of app'' = Inr (YMap (AList.delete (ignore_tags_key service) an))
     \<and> (map_of an (ignore_tags_key service) = None \<longrightarrow> app'' = app)
     \<and> (map_of an (ignore_tags_key service) \<noteq> None \<longrightarrow> annotations_of app'' \<noteq> annotations_of app)"
proof -
  let ?k = "ignore_tags_key service"
  let ?an1 = "AList.update ?k (YStr ''*'') an"
  from pause_edit_result [OF assms, of service] obtain md where
    md: "getitem app ''metadata'' = Inr md" and
    p: "pause_edit service app = Inr (store app ''metadata'' (store md ''annotations'' (YMap ?an1)))"
    by blast
  let ?app1 = "store app ''metadata'' (store md ''annotations'' (YMap ?an1))"
  have an1: "annotations_of ?app1 = Inr (YMap ?an1)"
    by (rule annotations_of_store [OF assms md])
  have md1: "getitem ?app1 ''metadata'' = Inr (store md ''annotations'' (YMap ?an1))"
    by (rule getitem_store_same [OF md])
  from resume_edit_result [OF an1, of service] md1
  have r: "resume_edit service ?app1 =
     Inr (store app ''metadata'' (store md ''annotations'' (YMap (AList.delete ?k an))))"
    by (simp add: store_store delete_update_same)
  have a2: "annotations_of (store app ''metadata'' (store md ''annotations'' (YMap (AList.delete ?k an))))
      = Inr (YMap (AList.delete ?k an))"
    by (rule annotations_of_store [OF assms md])
  have same: "map_of an ?k = None \<Longrightarrow>
      store app ''metadata'' (store md ''annotations'' (YMap (AList.delete ?k an))) = app"
    using store_back [OF assms md] by (simp add: delete_absent)
  have diff: "map_of an ?k \<noteq> None \<Longrightarrow> AList.delete ?k an \<noteq> an"
    using delete_conv' [of ?k an] by (metis fun_upd_same)
  show ?thesis using p r a2 same diff assms by auto
qed

theorem pause_resume_round_trip_witness:
  "(\<exists>app'. pause_edit ''svc'' example_app = Inr app' \<and> resume_edit ''svc'' app' = Inr example_app) \<and>
   (\<exists>app' app''. pause_edit ''svc'' pinned_app = Inr app' \<and> resume_edit ''svc'' app' = Inr app'' \<and>
      annotations_of app'' = Inr (YMap []) \<and> annotations_of app'' \<noteq> annotations_of pinned_app)"
proof -
  have absent: "map_of [(''a'', YStr ''1'')] (ignore_tags_key ''svc'') = None"
    by (simp add: ignore_tags_key_def)
  from pause_resume_round_trip [OF example_annotations, of "''svc''"] absent
  have one: "\<exists>app'. pause_edit ''svc'' example_app = Inr app' \<and> resume_edit ''svc'' app' = Inr example_app"
    by auto
  have pinned: "annotations_of pinned_app =
      Inr (YMap [(''argocd-image-updater.argoproj.io/svc.ignore-tags'', YStr ''v0.*'')])"
    by (simp add: pinned_app_def annotations_of_def)
  have present: "map_of [(''argocd-image-updater.argoproj.io/svc.ignore-tags'', YStr ''v0.*'')]
      (ignore_tags_key ''svc'') \<noteq> None"
    by (simp add: ignore_tags_key_def)
  from pause_resume_round_trip [OF pinned, of "''svc''"] present
  have two: "\<exists>app' app''. pause_edit ''svc'' pinned_app = Inr app' \<and> resume_edit ''svc'' app' = Inr app'' \<and>
      annotations_of app'' = Inr (YMap []) \<and> annotations_of app'' \<noteq> annotations_of pinned_app"
    by (auto simp: ignore_tags_key_def)
  from one two show ?thesis by blast
qed




text \<open>
  C4. \<^verbatim>\<open>pause\<close>, \<^verbatim>\<open>resume\<close> and \<^verbatim>\<open>update_versions\<close> write only to the branch passed to
  them. In every run of \<^verbatim>\<open>main\<close>, whether it ends normally or with an exception, each
  \<^verbatim>\<open>update_file\<close> call names a branch that did not exist before the run, that is not the
  default branch, and that the first call of the run created at the head of the default
  branch; the head of the default branch is the same after the run.
\<close>

theorem writes_target_working_branch:
  "works_on branch r (snd (pause Y env service branch r)) \<and>
   works_on branch r (snd (resume Y env service branch r)) \<and>
   works_on branch r (snd (update_versions Y env versions branch r)) \<and>
   (\<exists>cs. calls (snd (main Y tok a today r)) = calls r @ cs \<and>
      (\<forall>p m t s b. UpdateFile p m t s b \<in> set cs \<longrightarrow>
         b \<noteq> default_branch r \<and> refs r (heads b) = None \<and>
         (\<exists>sb. get_branch (default_branch r) r = Inr sb \<and> hd cs = CreateGitRef (heads b) sb))) \<and>
   refs (snd (main Y tok a today r)) (heads (default_branch r)) = refs r (heads (default_branch r))"
proof -
  have m: "(\<exists>cs. calls (snd (main Y tok a today r)) = calls r @ cs \<and>
      (\<forall>p m t s b. UpdateFile p m t s b \<in> set cs \<longrightarrow>
         b \<noteq> default_branch r \<and> refs r (heads b) = None \<and>
         (\<exists>sb. get_branch (default_branch r) r = Inr sb \<and> hd cs = CreateGitRef (heads b) sb))) \<and>
   refs (snd (main Y tok a today r)) (heads (default_branch r)) = refs r (heads (default_branch r))"
  proof (cases rule: main_cases [of tok Y a today r])
    case no_token
    then have "calls (snd (main Y tok a today r)) = calls r @ []" by simp
    with no_token show ?thesis by fastforce
  next
    case other
    then have "calls (snd (main Y tok a today r)) = calls r @ []" by simp
    with other show ?thesis by fastforce
  next
    case (run b)
    then show ?thesis by (rule branch_run_writes)
  qed
  show ?thesis
    using pause_works_on [of branch r Y env service] resume_works_on [of branch r Y env service]
      update_versions_works_on [of branch r Y env versions] m
    by simp
qed

theorem writes_target_working_branch_witness:
  "UpdateFile ''environments/staging/svc/application.yaml'' ''Pause svc in staging.''
        paused_app_text example_app_text ''pause-staging-2024-01-01''
     \<in> set (calls (snd (main example_yaml (Some ''token'')
       \<lparr>source_env = None, target_env = Some ''staging'', action = Some ''pause''\<rparr>
       ''2024-01-01'' (example_repo tagged_text)))) \<and>
   ''pause-staging-2024-01-01'' \<noteq> default_branch (example_repo tagged_text) \<and>
   refs (example_repo tagged_text) (heads ''pause-staging-2024-01-01'') = None"
proof -
  let ?r = "example_repo tagged_text"
  let ?a = "\<lparr>source_env = None, target_env = Some ''staging'', action = Some ''pause''\<rparr>"
  let ?u = "UpdateFile ''environments/staging/svc/application.yaml'' ''Pause svc in staging.''
        paused_app_text example_app_text ''pause-staging-2024-01-01''"
  from writes_target_working_branch [of "''b''" ?r example_yaml None "''svc''" "[]" "Some ''token''" ?a "''2024-01-01''"]
  obtain cs where cs: "calls (snd (main example_yaml (Some ''token'') ?a ''2024-01-01'' ?r)) = calls ?r @ cs"
    and w: "\<forall>p m t s b. UpdateFile p m t s b \<in> set cs \<longrightarrow>
         b \<noteq> default_branch ?r \<and> refs ?r (heads b) = None \<and>
         (\<exists>sb. get_branch (default_branch ?r) ?r = Inr sb \<and> hd cs = CreateGitRef (heads b) sb)"
    by blast
  from cs have "cs = calls (snd (main example_yaml (Some ''token'') ?a ''2024-01-01'' ?r))"
    by (simp add: example_repo_def)
  then have u: "?u \<in> set cs" by (simp add: example_main_pause)
  with w have "''pause-staging-2024-01-01'' \<noteq> default_branch ?r \<and>
      refs ?r (heads ''pause-staging-2024-01-01'') = None" by blast
  with u \<open>cs = _\<close> show ?thesis by simp
qed



text \<open>
  C6. The edit of \<^verbatim>\<open>pause\<close> is idempotent: applied twice it gives what it gives applied
  once, the same document and so the same dumped text (and the same exception where the
  first application raises).
\<close>

theorem pause_idempotent:
  "ebind (pause_edit service app) (pause_edit service) = pause_edit service app \<and>
   (\<forall>app'. pause_edit service app = Inr app' \<longrightarrow>
      pause_edit service app' = Inr app' \<and>
      map_sum id (dump Y) (pause_edit service app') = map_sum id (dump Y) (pause_edit service app))"
proof -
  have i: "ebind (pause_edit service app) (pause_edit service) = pause_edit service app"
    by (rule pause_idem)
  have "pause_edit service app' = Inr app'" if "pause_edit service app = Inr app'" for app'
    using i that by simp
  with i show ?thesis by simp
qed

theorem pause_idempotent_witness:
  "pause_edit ''svc'' example_app = Inr paused_app \<and> pause_edit ''svc'' paused_app = Inr paused_app"
proof -
  have p: "pause_edit ''svc'' example_app = Inr paused_app"
    by (simp add: example_app_def paused_app_def pause_edit_def ignore_tags_key_def)
  from pause_idempotent [of "''svc''" example_app example_yaml] p
  show ?thesis by simp
qed



text \<open>
  C8. The branch \<^verbatim>\<open>main\<close> creates is determined by the action, the target environment
  and the date: \<^verbatim>\<open>pause-{target_env}-{date}\<close> for \<^verbatim>\<open>pause\<close>,
  \<^verbatim>\<open>resume-{target_env}-{date}\<close> for \<^verbatim>\<open>resume\<close> and \<^verbatim>\<open>prod-push-{date}\<close> for \<^verbatim>\<open>push\<close>. It
  is the first call of the run, and every later call of the run works on that branch.
\<close>

theorem branch_names:
  assumes "get_branch (default_branch r) r = Inr sb"
  shows "(action a = Some ''pause'' \<longrightarrow>
           (\<exists>cs. calls (snd (main Y (Some t) a today r)) =
                   calls r @ CreateGitRef (''refs/heads/pause-'' @ fstr (target_env a) @ ''-'' @ today) sb # cs \<and>
                 (\<forall>c\<in>set cs. targets (''pause-'' @ fstr (target_env a) @ ''-'' @ today) c))) \<and>
         (action a = Some ''resume'' \<longrightarrow>
           (\<exists>cs. calls (snd (main Y (Some t) a today r)) =
                   calls r @ CreateGitRef (''refs/heads/resume-'' @ fstr (target_env a) @ ''-'' @ today) sb # cs \<and>
                 (\<forall>c\<in>set cs. targets (''resume-'' @ fstr (target_env a) @ ''-'' @ today) c))) \<and>
         (action a = Some ''push'' \<longrightarrow>
           (\<exists>cs. calls (snd (main Y (Some t) a today r)) =
                   calls r @ CreateGitRef (''refs/heads/prod-push-'' @ today) sb # cs \<and>
                 (\<forall>c\<in>set cs. targets (''prod-push-'' @ today) c)))"
proof (intro conjI impI)
  assume "action a = Some ''pause''"
  from main_pause_run [OF this, of today r Y t] assms
  show "\<exists>cs. calls (snd (main Y (Some t) a today r)) =
                   calls r @ CreateGitRef (''refs/heads/pause-'' @ fstr (target_env a) @ ''-'' @ today) sb # cs \<and>
                 (\<forall>c\<in>set cs. targets (''pause-'' @ fstr (target_env a) @ ''-'' @ today) c)"
    by (auto simp: branch_run_def heads_def)
next
  assume "action a = Some ''resume''"
  from main_resume_run [OF this, of today r Y t] assms
  show "\<exists>cs. calls (snd (main Y (Some t) a today r)) =
                   calls r @ CreateGitRef (''refs/heads/resume-'' @ fstr (target_env a) @ ''-'' @ today) sb # cs \<and>
                 (\<forall>c\<in>set cs. targets (''resume-'' @ fstr (target_env a) @ ''-'' @ today) c)"
    by (auto simp: branch_run_def heads_def)
next
  assume "action a = Some ''push''"
  from main_push_run [OF this, of today r Y t] assms
  show "\<exists>cs. calls (snd (main Y (Some t) a today r)) =
                   calls r @ CreateGitRef (''refs/heads/prod-push-'' @ today) sb # cs \<and>
                 (\<forall>c\<in>set cs. targets (''prod-push-'' @ today) c)"
    by (auto simp: branch_run_def heads_def)
qed

theorem branch_names_witness:
  "\<exists>cs. calls (snd (main example_yaml (Some ''token'')
            \<lparr>source_env = None, target_env = Some ''staging'', action = Some ''pause''\<rparr>
            ''2024-01-01'' (example_repo tagged_text))) =
          CreateGitRef ''refs/heads/pause-staging-2024-01-01'' (example_tree tagged_text) # cs \<and>
        (\<forall>c\<in>set cs. targets ''pause-staging-2024-01-01'' c)"
proof -
  let ?r = "example_repo tagged_text"
  have b: "get_branch (default_branch ?r) ?r = Inr (example_tree tagged_text)"
    by (simp add: example_repo_def get_branch_def)
  from branch_names [OF b, of "\<lparr>source_env = None, target_env = Some ''staging'', action = Some ''pause''\<rparr>"
      example_yaml "''token''" "''2024-01-01''"]
  show ?thesis by (simp add: fstr_def example_repo_def)
qed

text \<open>
  C9. For an action other than \<^verbatim>\<open>pause\<close>, \<^verbatim>\<open>resume\<close> and \<^verbatim>\<open>push\<close>, \<^verbatim>\<open>main\<close> leaves the
  remote repository as it was: no ref, no file, no pull request and no call of a mutating
  endpoint; with an access token it ends normally.
\<close>

theorem unrecognised_action_changes_nothing:
  assumes "action a \<noteq> Some ''pause''" "action a \<noteq> Some ''resume''" "action a \<noteq> Some ''push''"
  shows "snd (main Y tok a today r) = r \<and>
         (tok \<noteq> None \<longrightarrow> fst (main Y tok a today r) = Inr ())"
  using main_other [OF assms, of Y tok today r] by (auto split: option.splits)

theorem unrecognised_action_changes_nothing_witness:
  "main example_yaml (Some ''token'')
     \<lparr>source_env = None, target_env = Some ''staging'', action = Some ''deploy''\<rparr>
     ''2024-01-01'' (example_repo tagged_text) = (Inr (), example_repo tagged_text)"
proof -
  let ?a = "\<lparr>source_env = None, target_env = Some ''staging'', action = Some ''deploy''\<rparr>"
  have h: "action ?a \<noteq> Some ''pause''" "action ?a \<noteq> Some ''resume''" "action ?a \<noteq> Some ''push''"
    by simp_all
  from unrecognised_action_changes_nothing [OF h, of example_yaml "Some ''token''" "''2024-01-01''"
      "example_repo tagged_text"]
  show ?thesis by (simp add: prod_eq_iff)
qed

text \<open>
  C10. When the source-tracking file of a service has two or more parameters named
  \<^verbatim>\<open>image.tag\<close>, the mapping \<^verbatim>\<open>get_versions\<close> returns maps the service to the value of the
  last of them.
\<close>

theorem get_versions_keeps_last_tag:
  assumes listing: "get_contents charts_dir (default_branch r) r = Inr (Dir es)"
    and s: "s \<in> set es" and d: "distinct (map name es)"
    and fnd: "get_contents (argocd_source s env) (default_branch r) r = Inr (File c)"
    and load: "safe_load Y (decoded_content c) = Inr params"
    and ps: "tracking_parameters params = Inr (YSeq ps)"
    and two: "2 \<le> length (filter named_image_tag ps)"
    and ret: "get_versions Y charts_dir env r = Inr versions"
  shows "\<exists>v. getitem (last (filter named_image_tag ps)) ''value'' = Inr v \<and>
             map_of versions (name s) = Some v"
proof -
  from ret have "get_versions_loop Y env r es [] = Inr versions"
    by (simp add: get_versions_Dir [OF listing])
  from get_versions_loop_service [OF this s d] fnd load ps two
  show ?thesis by auto
qed

theorem get_versions_keeps_last_tag_witness:
  "get_versions example_yaml ''helm-charts'' (Some ''dev'') (example_repo tagged_twice_text) =
     Inr [(''svc'', YStr ''v1.2.4'')] \<and>
   map_of [(''svc'', YStr ''v1.2.4'')] ''svc'' = Some (YStr ''v1.2.4'')"
proof -
  let ?r = "example_repo tagged_twice_text"
  let ?s = "\<lparr>name = ''svc'', path = ''helm-charts/svc''\<rparr>"
  let ?c = "\<lparr>name = ''.argocd-source-svc-dev.yaml'',
                path = ''helm-charts/svc/.argocd-source-svc-dev.yaml'',
                sha = tagged_twice_text, decoded_content = tagged_twice_text\<rparr>"
  let ?ps = "[YMap [(''name'', YStr ''image.tag''), (''value'', YStr ''v1.2.3'')],
              YMap [(''name'', YStr ''image.tag''), (''value'', YStr ''v1.2.4'')]]"
  let ?params = "YMap [(''helm'', YMap [(''parameters'', YSeq ?ps)])]"
  have s: "?s \<in> set [?s]" by simp
  have d: "distinct (map name [?s])" by simp
  have load: "safe_load example_yaml (decoded_content ?c) = Inr ?params"
    by (simp add: ex_defs)
  have ps: "tracking_parameters ?params = Inr (YSeq ?ps)"
    by (simp add: tracking_parameters_def)
  have two: "2 \<le> length (filter named_image_tag ?ps)"
    by (simp add: named_image_tag_def)
  from get_versions_keeps_last_tag [OF example_listing s d example_tracking load ps two
      example_get_versions_twice]
  show ?thesis
    by (simp add: example_get_versions_twice)
qed

end
